theory Spec2Isabelle
  imports Main "HOL-Library.Sublist"
begin

section \<open>Interception layer: path patterns (ProofMiddleware)\<close>

text \<open>
  Text is modelled as \<^typ>\<open>string\<close>. Everything the code may throw is a value of
  \<open>error\<close> (the optional \<open>code\<close> property and the message of the JavaScript \<open>Error\<close>),
  and a function that may throw returns \<open>error + 'a\<close> (\<open>Inl\<close> the exception).
\<close>

datatype error = JsError (code: "string option") (message: string)

subsection \<open>The regular expressions that \<open>matchPattern\<close> builds\<close>

text \<open>
  \<open>matchPattern\<close> hands the text \<open>'^' + pattern.replace(/\*/g, '.*') + '$'\<close> to the host's
  \<open>RegExp\<close>. The host's engine is a parameter of the model: a function from the source text
  of the expression and the input to the outcome of \<open>new RegExp(source).test(input)\<close>,
  \<open>Inl\<close> when the constructor throws. \<open>wildcard_regexp\<close> below is that engine on ASCII
  inputs and on the ASCII expressions made of ordinary characters, \<open>.\<close> (any character but
  a line terminator; in ASCII these are LF and CR) and starred atoms between \<open>^\<close> and \<open>$\<close>.
  It answers \<open>Inl\<close> on every other source text and input, also on those the host accepts.
\<close>

type_synonym regexp_engine = "string \<Rightarrow> string \<Rightarrow> error + bool"

datatype atom = Lit char | AnyChar

datatype item = Once atom | Star atom

definition syntax_char :: "char \<Rightarrow> bool" where
  "syntax_char c = (c = CHR 0x5C \<or> c \<in> set ''^$.*+?()[]{}|'')"

definition ascii :: "string \<Rightarrow> bool" where
  "ascii s = list_all (\<lambda>c. (of_char c :: nat) < 128) s"

definition line_terminator :: "char \<Rightarrow> bool" where
  "line_terminator c = (c = CHR 0x0A \<or> c = CHR 0x0D)"

fun atom_of :: "char \<Rightarrow> atom option" where
  "atom_of c = (if c = CHR ''.'' then Some AnyChar
                else if syntax_char c then None else Some (Lit c))"

fun parse_items :: "string \<Rightarrow> item list option" where
  "parse_items [] = Some []"
| "parse_items [c] = map_option (\<lambda>a. [Once a]) (atom_of c)"
| "parse_items (c # d # cs) =
     (case atom_of c of
        None \<Rightarrow> None
      | Some a \<Rightarrow>
          if d = CHR ''*''
          then map_option (\<lambda>r. Star a # r) (parse_items cs)
          else map_option (\<lambda>r. Once a # r) (parse_items (d # cs)))"

fun atom_accepts :: "atom \<Rightarrow> char \<Rightarrow> bool" where
  "atom_accepts (Lit c) x = (x = c)"
| "atom_accepts AnyChar x = (\<not> line_terminator x)"

fun items_match :: "item list \<Rightarrow> string \<Rightarrow> bool" where
  "items_match [] s = (s = [])"
| "items_match (Once a # r) [] = False"
| "items_match (Once a # r) (x # xs) = (atom_accepts a x \<and> items_match r xs)"
| "items_match (Star a # r) [] = items_match r []"
| "items_match (Star a # r) (x # xs) =
     (items_match r (x # xs) \<or> (atom_accepts a x \<and> items_match (Star a # r) xs))"

definition outside_fragment :: "string \<Rightarrow> error" where
  "outside_fragment source = JsError None (''regular expression outside the modelled fragment: '' @ source)"

definition wildcard_regexp :: regexp_engine where
  "wildcard_regexp source input =
     (if \<not> (ascii source \<and> ascii input) then Inl (outside_fragment source)
      else
        (case source of
           [] \<Rightarrow> Inl (outside_fragment source)
         | c # body \<Rightarrow>
             if c = CHR ''^'' \<and> body \<noteq> [] \<and> last body = CHR ''$''
             then (case parse_items (butlast body) of
                     None \<Rightarrow> Inl (outside_fragment source)
                   | Some its \<Rightarrow> Inr (items_match its input))
             else Inl (outside_fragment source)))"

subsection \<open>\<open>matchPattern\<close> and \<open>shouldRecord\<close>\<close>

record ProofMiddlewareOptions =
  patterns :: "string list option"
  excludePatterns :: "string list option"
  batchInterval :: "int option"
  batchSize :: "int option"

text \<open>\<open>pattern.replace(/\*/g, '.*')\<close>: every asterisk becomes the two characters \<open>.*\<close>.\<close>

definition replace_stars :: "string \<Rightarrow> string" where
  "replace_stars pattern = concat (map (\<lambda>c. if c = CHR ''*'' then ''.*'' else [c]) pattern)"

definition matchPattern :: "regexp_engine \<Rightarrow> string \<Rightarrow> string \<Rightarrow> error + bool" where
  "matchPattern rx path pattern =
     (if CHR ''*'' \<in> set pattern
      then rx (''^'' @ replace_stars pattern @ ''$'') path
      else Inr (path = pattern \<or> prefix pattern path))"

text \<open>
  The two \<open>for\<close> loops of \<open>shouldRecord\<close>: the patterns are tried in order, the loop leaves
  at the first match, and an exception of \<open>matchPattern\<close> leaves the whole function.
\<close>

fun first_match :: "regexp_engine \<Rightarrow> string \<Rightarrow> string list \<Rightarrow> error + bool" where
  "first_match rx path [] = Inr False"
| "first_match rx path (p # ps) =
     (case matchPattern rx path p of
        Inl e \<Rightarrow> Inl e
      | Inr True \<Rightarrow> Inr True
      | Inr False \<Rightarrow> first_match rx path ps)"

definition check_include :: "regexp_engine \<Rightarrow> ProofMiddlewareOptions \<Rightarrow> string \<Rightarrow> error + bool" where
  "check_include rx opts path =
     (case patterns opts of
        Some ps \<Rightarrow> first_match rx path ps
      | None \<Rightarrow> Inr True)"

definition shouldRecord :: "regexp_engine \<Rightarrow> ProofMiddlewareOptions \<Rightarrow> string \<Rightarrow> error + bool" where
  "shouldRecord rx opts path =
     (case excludePatterns opts of
        Some ex \<Rightarrow>
          (case first_match rx path ex of
             Inl e \<Rightarrow> Inl e
           | Inr True \<Rightarrow> Inr False
           | Inr False \<Rightarrow> check_include rx opts path)
      | None \<Rightarrow> check_include rx opts path)"

section \<open>Interception layer: the batch queue (ProofMiddleware)\<close>

text \<open>
  The runtime is single-threaded: a callback runs from its start to its first \<open>await\<close>
  (or to its end) before any other callback starts. The model has one function per
  callback, each taking the middleware object and returning it updated, and the order of
  events is the order in which the functions are applied.

  Arrays are objects that \<open>push\<close> mutates in place, and the batch handed to
  \<open>client.batchRecord\<close> is read by it across several suspension points. So arrays live
  in a store, \<open>arrays\<close>, from addresses to contents; \<open>batchQueue\<close> is the address the field
  holds, \<open>next_address\<close> the next unused address, and \<open>batchRecordCalls\<close> the history of the
  calls \<open>this.client.batchRecord(batch)\<close>, oldest first, each with the address of the array
  it was given. \<open>recordCalls\<close> is the history of the calls of \<open>recordImmediately\<close>. An entry
  is an object with a request, a response and, optionally, metadata; the entry that
  \<open>addToBatch\<close> pushes has the reading of \<open>Date.now()\<close> as its metadata.
\<close>

record 'a batch_entry =
  request :: 'a
  response :: 'a
  metadata :: "'a option"

record 'a middleware =
  options :: ProofMiddlewareOptions
  arrays :: "nat \<Rightarrow> 'a batch_entry list"
  next_address :: nat
  batchQueue :: nat
  batchTimer :: "int option"
  batchRecordCalls :: "nat list"
  recordCalls :: "('a \<times> 'a) list"

text \<open>A JavaScript number is truthy unless it is zero; an absent option is falsy.\<close>

definition truthy_number :: "int option \<Rightarrow> bool" where
  "truthy_number v = (case v of None \<Rightarrow> False | Some n \<Rightarrow> n \<noteq> 0)"

definition or_default :: "int option \<Rightarrow> int \<Rightarrow> int" where
  "or_default v d = (case v of None \<Rightarrow> d | Some n \<Rightarrow> if n \<noteq> 0 then n else d)"

text \<open>
  \<open>processBatch\<close> up to its \<open>await\<close>: the empty queue returns at once; otherwise
  \<open>[...this.batchQueue]\<close> allocates the copy, \<open>this.batchQueue = []\<close> allocates the new empty
  queue, and the copy goes to \<open>client.batchRecord\<close>. What follows the \<open>await\<close> (a line on
  the console, also when the call fails) leaves the object as it is.
\<close>

definition processBatch :: "'a middleware \<Rightarrow> 'a middleware" where
  "processBatch m =
     (if length (arrays m (batchQueue m)) = 0 then m
      else (let batch = next_address m;
                fresh = next_address m + 1
            in m\<lparr>arrays := (arrays m)(batch := arrays m (batchQueue m), fresh := []),
                 next_address := next_address m + 2,
                 batchQueue := fresh,
                 batchRecordCalls := batchRecordCalls m @ [batch]\<rparr>))"

definition addToBatch :: "'a \<Rightarrow> 'a \<Rightarrow> 'a \<Rightarrow> 'a middleware \<Rightarrow> 'a middleware" where
  "addToBatch requestData responseData now m =
     (let q = batchQueue m;
          m' = m\<lparr>arrays := (arrays m)(q := arrays m q @
                  [\<lparr>request = requestData, response = responseData, metadata = Some now\<rparr>])\<rparr>
      in if int (length (arrays m' (batchQueue m'))) \<ge> or_default (batchSize (options m')) 100
         then processBatch m' else m')"

text \<open>
  \<open>startBatchProcessing\<close> arms the interval timer with the period
  \<open>batchInterval || 60000\<close>; \<open>timer_callback\<close> is the function it is armed with, and
  \<open>timer_fires\<close> is one firing, which does nothing when no timer is armed.
\<close>

definition startBatchProcessing :: "'a middleware \<Rightarrow> 'a middleware" where
  "startBatchProcessing m = m\<lparr>batchTimer := Some (or_default (batchInterval (options m)) 60000)\<rparr>"

definition timer_callback :: "'a middleware \<Rightarrow> 'a middleware" where
  "timer_callback m = (if length (arrays m (batchQueue m)) > 0 then processBatch m else m)"

definition timer_fires :: "'a middleware \<Rightarrow> 'a middleware" where
  "timer_fires m = (case batchTimer m of None \<Rightarrow> m | Some period \<Rightarrow> timer_callback m)"

text \<open>The constructor, once the client is in place: the field initialiser allocates the
  empty queue, and the timer is armed when \<open>batchInterval\<close> is truthy.\<close>

definition new_middleware :: "ProofMiddlewareOptions \<Rightarrow> 'a middleware" where
  "new_middleware opts =
     (let m = \<lparr>options = opts, arrays = (\<lambda>a. []), next_address = 1, batchQueue = 0,
               batchTimer = None, batchRecordCalls = [], recordCalls = []\<rparr>
      in if truthy_number (batchInterval opts) then startBatchProcessing m else m)"


text \<open>The events of a run (a call of \<open>addToBatch\<close>, a firing of the timer, a call of
  \<open>processBatch\<close>), and the run of a list of events in order.\<close>

datatype 'a event = Append 'a 'a 'a | TimerFires | Flush

fun step :: "'a event \<Rightarrow> 'a middleware \<Rightarrow> 'a middleware" where
  "step (Append rq rs now) m = addToBatch rq rs now m"
| "step TimerFires m = timer_fires m"
| "step Flush m = processBatch m"

fun run :: "'a event list \<Rightarrow> 'a middleware \<Rightarrow> 'a middleware" where
  "run [] m = m"
| "run (e # es) m = run es (step e m)"

text \<open>The entries that a list of events appends to the queue, in order.\<close>

fun appended :: "'a event list \<Rightarrow> 'a batch_entry list" where
  "appended [] = []"
| "appended (Append rq rs now # es) =
     \<lparr>request = rq, response = rs, metadata = Some now\<rparr> # appended es"
| "appended (e # es) = appended es"

text \<open>The contents of the queue, and of the batches of all flushes so far, oldest first.\<close>

definition queued :: "'a middleware \<Rightarrow> 'a batch_entry list" where
  "queued m = arrays m (batchQueue m)"

definition flushed :: "'a middleware \<Rightarrow> 'a batch_entry list list" where
  "flushed m = map (arrays m) (batchRecordCalls m)"


definition example_options :: ProofMiddlewareOptions where
  "example_options =
     \<lparr>patterns = Some [''/api/*''], excludePatterns = Some [''/health''],
      batchInterval = None, batchSize = None\<rparr>"

text \<open>
  The invariant of the store: the queue and every batch handed out were allocated, and no
  batch handed out is the array the queue field holds.
\<close>

definition wf :: "'a middleware \<Rightarrow> bool" where
  "wf m = (batchQueue m < next_address m \<and>
           (\<forall>a \<in> set (batchRecordCalls m). a < next_address m \<and> a \<noteq> batchQueue m))"

definition batch_options :: ProofMiddlewareOptions where
  "batch_options =
     \<lparr>patterns = None, excludePatterns = None, batchInterval = Some 60000, batchSize = Some 2\<rparr>"

section \<open>Recording orchestrator (ProofClient)\<close>

subsection \<open>Data\<close>

text \<open>
  Values of type \<open>any\<close> (request and response data, metadata, payloads for the archive) are
  JSON values; numbers are integers, as every number the pipeline itself produces is.
\<close>

datatype json =
    JNull
  | JBool bool
  | JNum int
  | JStr string
  | JArr "json list"
  | JObj "(string \<times> json) list"

datatype VisibilityLevel = PUBLIC | PRIVATE | SHARED

text \<open>The fields of \<open>ProofConfig\<close> that \<open>record\<close> and \<open>batchRecord\<close> read; \<open>onRecord\<close> says
  whether the callback is configured.\<close>

record ProofConfig =
  privateKey :: string
  network :: "string option"
  autoApprove :: "bool option"
  encryptData :: "bool option"
  ipfsGateway :: "string option"
  certificateBaseUrl :: "string option"
  onRecord :: bool

record RecordOptions =
  opt_method :: "string option"
  opt_headers :: "json option"
  opt_body :: "json option"
  opt_metadata :: "json option"
  visibility :: "VisibilityLevel option"

record cost_info =
  proofTokens :: string
  gasInPOL :: string

record ProofReceipt =
  recordId :: string
  transactionHash :: string
  blockNumber :: nat
  timestamp :: nat
  gasUsed :: string
  explorerUrl :: "string option"
  certificateUrl :: string
  ipfsUrl :: string
  cost :: cost_info

text \<open>The response of the awaited \<open>fetchPromise\<close>, with the text of its body.\<close>

record http_response =
  resp_url :: string
  resp_status :: int
  resp_statusText :: string
  resp_headers :: "(string \<times> string) list"
  resp_text :: string

text \<open>
  An entry of \<open>receipt.logs\<close> is modelled by what \<open>interface.parseLog\<close> does with it: a
  description with the event's name and its named arguments, \<open>null\<close>, or an exception.
\<close>

datatype log_entry =
    ParsedLog string "(string \<times> string) list"
  | UnknownLog
  | MalformedLog

record tx_receipt =
  tx_hash :: string
  tx_blockNumber :: nat
  tx_gasUsed :: nat
  tx_gasPrice :: nat
  tx_logs :: "log_entry list"

record upload_result =
  up_cid :: string
  up_url :: string
  up_size :: nat
  up_timestamp :: nat

record certificate_data =
  cert_recordId :: string
  cert_transactionHash :: string
  cert_timestamp :: nat
  cert_requestUrl :: string
  cert_responseStatus :: int
  cert_network :: string

subsection \<open>The outside world\<close>

text \<open>
  Every call that leaves the client (the clock, the archive service, the two contracts, the
  configured callback) is recorded, in order, in a history of calls. The world is any
  deterministic function of that history: each of its answers may depend on all calls made
  before, and each call may fail. The pure library functions (\<open>JSON.stringify\<close>, the
  SHA-256 digest in hexadecimal, \<open>ethers.formatEther\<close>) are parameters as well.
\<close>

datatype call =
    DateNow
  | IpfsUpload json bool
  | IpfsCreateCertificate certificate_data
  | RecordPrice
  | GetAddress
  | Allowance string string
  | Approve string nat
  | Wait string
  | StoreAPIRecord string string string VisibilityLevel
  | StoreBatchRecords "string list" "string list" string VisibilityLevel
  | OnRecord ProofReceipt
  | ConsoleError error

record world =
  date_now :: "call list \<Rightarrow> nat"
  ipfs_upload :: "call list \<Rightarrow> json \<Rightarrow> bool \<Rightarrow> error + upload_result"
  ipfs_createCertificate :: "call list \<Rightarrow> certificate_data \<Rightarrow> error + upload_result"
  registry_recordPrice :: "call list \<Rightarrow> error + nat"
  registry_getAddress :: "call list \<Rightarrow> error + string"
  token_allowance :: "call list \<Rightarrow> string \<Rightarrow> string \<Rightarrow> error + nat"
  token_approve :: "call list \<Rightarrow> string \<Rightarrow> nat \<Rightarrow> error + string"
  tx_wait :: "call list \<Rightarrow> string \<Rightarrow> error + tx_receipt"
  registry_storeAPIRecord ::
    "call list \<Rightarrow> string \<Rightarrow> string \<Rightarrow> string \<Rightarrow> VisibilityLevel \<Rightarrow> error + string"
  registry_storeBatchRecords ::
    "call list \<Rightarrow> string list \<Rightarrow> string list \<Rightarrow> string \<Rightarrow> VisibilityLevel \<Rightarrow> error + string"
  onRecord_callback :: "call list \<Rightarrow> ProofReceipt \<Rightarrow> error + unit"
  signer_address :: string
  json_stringify :: "json \<Rightarrow> string"
  sha256_hex :: "string \<Rightarrow> string"
  formatEther :: "nat \<Rightarrow> string"

text \<open>A computation takes the history so far and returns its outcome and the history
  extended by the calls it made; an exception ends it.\<close>

type_synonym 'a io = "call list \<Rightarrow> (error + 'a) \<times> call list"

definition io_return :: "'a \<Rightarrow> 'a io" where
  "io_return x = (\<lambda>h. (Inr x, h))"

definition io_throw :: "error \<Rightarrow> 'a io" where
  "io_throw e = (\<lambda>h. (Inl e, h))"

definition io_bind :: "'a io \<Rightarrow> ('a \<Rightarrow> 'b io) \<Rightarrow> 'b io" where
  "io_bind m f = (\<lambda>h. case m h of (Inl e, h') \<Rightarrow> (Inl e, h') | (Inr x, h') \<Rightarrow> f x h')"

definition io_call :: "call \<Rightarrow> (call list \<Rightarrow> error + 'a) \<Rightarrow> 'a io" where
  "io_call c answer = (\<lambda>h. (answer h, h @ [c]))"

definition io_catch :: "'a io \<Rightarrow> (error \<Rightarrow> 'a io) \<Rightarrow> 'a io" where
  "io_catch m handler = (\<lambda>h. case m h of (Inl e, h') \<Rightarrow> handler e h' | (Inr x, h') \<Rightarrow> (Inr x, h'))"

definition dateNow :: "world \<Rightarrow> nat io" where
  "dateNow W = io_call DateNow (\<lambda>h. Inr (date_now W h))"

subsection \<open>Helpers of the language\<close>

text \<open>\<open>a || b\<close> on an optional string and on an optional value; a template literal prints
  an absent value as \<open>undefined\<close>; \<open>toString\<close> of a natural number.\<close>

definition or_string :: "string option \<Rightarrow> string \<Rightarrow> string" where
  "or_string v d = (case v of None \<Rightarrow> d | Some s \<Rightarrow> if s \<noteq> [] then s else d)"

fun truthy :: "json \<Rightarrow> bool" where
  "truthy JNull = False"
| "truthy (JBool b) = b"
| "truthy (JNum n) = (n \<noteq> 0)"
| "truthy (JStr s) = (s \<noteq> [])"
| "truthy (JArr xs) = True"
| "truthy (JObj kvs) = True"

definition or_json :: "json option \<Rightarrow> json \<Rightarrow> json" where
  "or_json v d = (case v of None \<Rightarrow> d | Some j \<Rightarrow> if truthy j then j else d)"

definition template :: "string option \<Rightarrow> string" where
  "template v = (case v of None \<Rightarrow> ''undefined'' | Some s \<Rightarrow> s)"

definition digit :: "nat \<Rightarrow> char" where
  "digit d = ''0123456789'' ! d"

fun decimal :: "nat \<Rightarrow> string" where
  "decimal n = (if n < 10 then [digit n] else decimal (n div 10) @ [digit (n mod 10)])"

declare decimal.simps [simp del]

definition digit_value :: "char \<Rightarrow> nat" where
  "digit_value c = of_char c - 48"

definition number_of_decimal :: "string \<Rightarrow> nat" where
  "number_of_decimal s = foldl (\<lambda>acc c. acc * 10 + digit_value c) 0 s"

definition MaxUint256 :: nat where
  "MaxUint256 = 2 ^ 256 - 1"

subsection \<open>The constructor and the private helpers\<close>

text \<open>
  The constructor fills in the defaults of the configuration: \<open>client_config config\<close> is
  \<open>this.config\<close> of the client constructed from \<open>config\<close>. The constructor also builds the
  provider, the signer and the two contracts, and throws when it cannot; the pipelines
  below are those of a client that was constructed.

  The contracts are built from the two ABIs of \<open>abis.ts\<close>. A method that the ABI declares is
  forwarded to the ledger; a method that it does not declare is \<open>undefined\<close> on the contract
  object, and calling it throws a \<open>TypeError\<close> before anything leaves the client. The
  lists are the names of the functions the ABIs declare.
\<close>

definition PROOF_TOKEN_ABI :: "string list" where
  "PROOF_TOKEN_ABI =
     [''balanceOf'', ''allowance'', ''totalSupply'', ''decimals'', ''symbol'', ''name'',
      ''approve'', ''transfer'', ''transferFrom'']"

definition PROOF_REGISTRY_ABI :: "string list" where
  "PROOF_REGISTRY_ABI =
     [''baseRecordPrice'', ''userRecordCount'', ''verifyRecord'', ''calculateBatchPrice'',
      ''getUserRecords'', ''getStatistics'', ''getPricingInfo'', ''getCurrentBurnRate'',
      ''sharedAccess'', ''storeAPIRecord'', ''storeBatchRecords'', ''grantAccess'',
      ''revokeAccess'']"

definition contract_method ::
  "string list \<Rightarrow> string \<Rightarrow> string \<Rightarrow> call \<Rightarrow> (call list \<Rightarrow> error + 'a) \<Rightarrow> 'a io" where
  "contract_method abi object name c answer =
     (if name \<in> set abi then io_call c answer
      else io_throw (JsError None (object @ ''.'' @ name @ '' is not a function'')))"

definition proofRegistry :: "string \<Rightarrow> call \<Rightarrow> (call list \<Rightarrow> error + 'a) \<Rightarrow> 'a io" where
  "proofRegistry = contract_method PROOF_REGISTRY_ABI ''this.proofRegistry''"

definition proofToken :: "string \<Rightarrow> call \<Rightarrow> (call list \<Rightarrow> error + 'a) \<Rightarrow> 'a io" where
  "proofToken = contract_method PROOF_TOKEN_ABI ''this.proofToken''"


definition client_config :: "ProofConfig \<Rightarrow> ProofConfig" where
  "client_config config =
     config\<lparr>network := Some (or_string (network config) ''amoy''),
            autoApprove := Some (autoApprove config \<noteq> Some False),
            ipfsGateway := Some (or_string (ipfsGateway config) ''https://ipfs.io/ipfs/'')\<rparr>"

definition getExplorerUrl :: "ProofConfig \<Rightarrow> string \<Rightarrow> string option" where
  "getExplorerUrl cfg txHash =
     (let n = or_string (network cfg) ''amoy''
      in if n = ''amoy'' then Some (''https://amoy.polygonscan.com/tx/'' @ txHash)
         else if n = ''polygon'' then Some (''https://polygonscan.com/tx/'' @ txHash)
         else if n = ''local'' then Some (''http://localhost:3000/tx/'' @ txHash)
         else None)"

definition hashData :: "world \<Rightarrow> json \<Rightarrow> string" where
  "hashData W data = ''0x'' @ sha256_hex W (json_stringify W data)"

definition uploadToIPFS :: "world \<Rightarrow> ProofConfig \<Rightarrow> json \<Rightarrow> string io" where
  "uploadToIPFS W cfg data =
     (let encrypt = (encryptData cfg = Some True)
      in io_bind (io_call (IpfsUpload data encrypt) (\<lambda>h. ipfs_upload W h data encrypt))
           (\<lambda>result. io_return (up_cid result)))"

text \<open>\<open>getAddress\<close> and \<open>wait\<close> are methods of every contract and transaction object.\<close>

definition ensureTokenApproval :: "world \<Rightarrow> nat \<Rightarrow> unit io" where
  "ensureTokenApproval W recordCount =
     io_bind (proofRegistry ''recordPrice'' RecordPrice (registry_recordPrice W)) (\<lambda>recordPrice.
     let totalCost = recordPrice * recordCount in
     io_bind (io_call GetAddress (registry_getAddress W)) (\<lambda>spender.
     io_bind (proofToken ''allowance'' (Allowance (signer_address W) spender)
                (\<lambda>h. token_allowance W h (signer_address W) spender)) (\<lambda>currentAllowance.
     if currentAllowance < totalCost
     then io_bind (io_call GetAddress (registry_getAddress W)) (\<lambda>spender'.
          io_bind (proofToken ''approve'' (Approve spender' MaxUint256)
                     (\<lambda>h. token_approve W h spender' MaxUint256)) (\<lambda>tx.
          io_bind (io_call (Wait tx) (\<lambda>h. tx_wait W h tx)) (\<lambda>r. io_return ())))
     else io_return ())))"

text \<open>\<open>handleError\<close> replaces an exception with one of two codes by a new one and logs any
  other; the \<open>catch\<close> blocks then throw the original again.\<close>

definition handleError :: "error \<Rightarrow> 'a io" where
  "handleError e =
     (if code e = Some ''INSUFFICIENT_FUNDS''
      then io_throw (JsError None ''Insufficient PROOF tokens. Please purchase more tokens.'')
      else if code e = Some ''NETWORK_ERROR''
      then io_throw (JsError None ''Network error. Please check your connection.'')
      else io_bind (io_call (ConsoleError e) (\<lambda>h. Inr ())) (\<lambda>u. io_throw e))"

definition emit :: "world \<Rightarrow> ProofConfig \<Rightarrow> string \<Rightarrow> ProofReceipt \<Rightarrow> unit io" where
  "emit W cfg event data =
     (if onRecord cfg \<and> event = ''recorded''
      then io_call (OnRecord data) (\<lambda>h. onRecord_callback W h data)
      else io_return ())"

subsection \<open>\<open>record\<close>\<close>

text \<open>The method \<open>record\<close> is \<open>record_fn\<close> here, \<open>record\<close> being a keyword.\<close>

definition requestData_of :: "http_response \<Rightarrow> RecordOptions \<Rightarrow> nat \<Rightarrow> json" where
  "requestData_of res opts startTime =
     JObj [(''url'', JStr (resp_url res)),
           (''method'', JStr (or_string (opt_method opts) ''GET'')),
           (''headers'', or_json (opt_headers opts) (JObj [])),
           (''timestamp'', JNum (int startTime)),
           (''body'', or_json (opt_body opts) JNull)]"

definition responseData_of :: "http_response \<Rightarrow> nat \<Rightarrow> nat \<Rightarrow> json" where
  "responseData_of res startTime endTime =
     JObj [(''status'', JNum (resp_status res)),
           (''statusText'', JStr (resp_statusText res)),
           (''headers'', JObj (map (\<lambda>(k, v). (k, JStr v)) (resp_headers res))),
           (''body'', JStr (resp_text res)),
           (''timestamp'', JNum (int endTime)),
           (''duration'', JNum (int endTime - int startTime))]"

text \<open>
  \<open>receipt.logs.find(...)\<close>: the first entry that \<open>parseLog\<close> turns into a description
  named \<open>RecordStored\<close>; an entry on which \<open>parseLog\<close> throws or returns \<open>null\<close> is passed
  over. Then \<open>event ? parseLog(event)?.args.recordId || tx.hash : tx.hash\<close>.
\<close>

definition is_event :: "string \<Rightarrow> log_entry \<Rightarrow> bool" where
  "is_event name l = (case l of ParsedLog n args \<Rightarrow> n = name | UnknownLog \<Rightarrow> False | MalformedLog \<Rightarrow> False)"

definition extract_recordId :: "log_entry list \<Rightarrow> string \<Rightarrow> string" where
  "extract_recordId logs txHash =
     (case find (is_event ''RecordStored'') logs of
        None \<Rightarrow> txHash
      | Some event \<Rightarrow>
          (case event of
             ParsedLog n args \<Rightarrow> or_string (map_of args ''recordId'') txHash
           | UnknownLog \<Rightarrow> txHash
           | MalformedLog \<Rightarrow> txHash))"

definition resolve_visibility :: "VisibilityLevel option \<Rightarrow> VisibilityLevel" where
  "resolve_visibility v = (case v of Some l \<Rightarrow> l | None \<Rightarrow> PUBLIC)"

text \<open>The argument of \<open>createCertificate\<close> (step 10) and the receipt (step 11).\<close>

definition certificate_request ::
  "ProofConfig \<Rightarrow> http_response \<Rightarrow> nat \<Rightarrow> string \<Rightarrow> tx_receipt \<Rightarrow> certificate_data" where
  "certificate_request cfg res startTime rid receipt =
     \<lparr>cert_recordId = rid,
      cert_transactionHash = tx_hash receipt,
      cert_timestamp = startTime,
      cert_requestUrl = resp_url res,
      cert_responseStatus = resp_status res,
      cert_network = or_string (network cfg) ''amoy''\<rparr>"

definition record_receipt_of ::
  "world \<Rightarrow> ProofConfig \<Rightarrow> nat \<Rightarrow> string \<Rightarrow> string \<Rightarrow> tx_receipt \<Rightarrow> upload_result \<Rightarrow> ProofReceipt" where
  "record_receipt_of W cfg startTime ipfsHash rid receipt certificate =
     \<lparr>recordId = rid,
      transactionHash = tx_hash receipt,
      blockNumber = tx_blockNumber receipt,
      timestamp = startTime,
      gasUsed = decimal (tx_gasUsed receipt),
      explorerUrl = getExplorerUrl cfg (tx_hash receipt),
      certificateUrl = up_url certificate,
      ipfsUrl = template (ipfsGateway cfg) @ ipfsHash,
      cost = \<lparr>proofTokens = ''10'',
              gasInPOL = formatEther W (tx_gasUsed receipt * tx_gasPrice receipt)\<rparr>\<rparr>"

text \<open>Steps 8 (the wait) to 12 of \<open>record\<close>, from the confirmation to the returned
  response; \<open>tx\<close> is \<open>tx.hash\<close>.\<close>

definition record_confirm ::
  "world \<Rightarrow> ProofConfig \<Rightarrow> http_response \<Rightarrow> nat \<Rightarrow> string \<Rightarrow> string
   \<Rightarrow> (http_response \<times> ProofReceipt) io" where
  "record_confirm W cfg res startTime ipfsHash tx =
     io_bind (io_call (Wait tx) (\<lambda>h. tx_wait W h tx)) (\<lambda>receipt.
     let rid = extract_recordId (tx_logs receipt) tx;
         cert = certificate_request cfg res startTime rid receipt in
     io_bind (io_call (IpfsCreateCertificate cert) (\<lambda>h. ipfs_createCertificate W h cert)) (\<lambda>certificate.
     let proofReceipt = record_receipt_of W cfg startTime ipfsHash rid receipt certificate in
     io_bind (emit W cfg ''recorded'' proofReceipt) (\<lambda>u'.
     io_return (res, proofReceipt))))"

text \<open>Steps 6 to 8: the approval when \<open>autoApprove\<close> is set, the visibility, the anchor
  transaction.\<close>

definition record_anchor ::
  "world \<Rightarrow> ProofConfig \<Rightarrow> RecordOptions \<Rightarrow> http_response \<Rightarrow> nat \<Rightarrow> string \<Rightarrow> string \<Rightarrow> string
   \<Rightarrow> (http_response \<times> ProofReceipt) io" where
  "record_anchor W cfg opts res startTime requestHash responseHash ipfsHash =
     io_bind (if autoApprove cfg = Some True then ensureTokenApproval W 1 else io_return ()) (\<lambda>u.
     let vis = resolve_visibility (visibility opts) in
     io_bind (proofRegistry ''storeAPIRecord'' (StoreAPIRecord requestHash responseHash ipfsHash vis)
                (\<lambda>h. registry_storeAPIRecord W h requestHash responseHash ipfsHash vis)) (\<lambda>tx.
     record_confirm W cfg res startTime ipfsHash tx))"

text \<open>Steps 1 to 5, then the rest; \<open>fetched\<close> is what awaiting \<open>fetchPromise\<close> gives.\<close>

definition record_try ::
  "world \<Rightarrow> ProofConfig \<Rightarrow> error + http_response \<Rightarrow> RecordOptions
   \<Rightarrow> (http_response \<times> ProofReceipt) io" where
  "record_try W cfg fetched opts =
     io_bind (dateNow W) (\<lambda>startTime.
     io_bind (\<lambda>h. (fetched, h)) (\<lambda>res.
     io_bind (dateNow W) (\<lambda>endTime.
     let requestData = requestData_of res opts startTime;
         responseData = responseData_of res startTime endTime;
         requestHash = hashData W requestData;
         responseHash = hashData W responseData in
     io_bind (uploadToIPFS W cfg
                (JObj [(''request'', requestData), (''response'', responseData),
                       (''metadata'', or_json (opt_metadata opts) (JObj []))])) (\<lambda>ipfsHash.
     record_anchor W cfg opts res startTime requestHash responseHash ipfsHash))))"

definition record_fn ::
  "world \<Rightarrow> ProofConfig \<Rightarrow> error + http_response \<Rightarrow> RecordOptions
   \<Rightarrow> (http_response \<times> ProofReceipt) io" where
  "record_fn W cfg fetched opts = io_catch (record_try W cfg fetched opts) handleError"

subsection \<open>\<open>batchRecord\<close>\<close>

text \<open>A record as a JSON value; the \<open>metadata\<close> key is there when the record has metadata.\<close>

definition entry_json :: "json batch_entry \<Rightarrow> json" where
  "entry_json r =
     JObj ([(''request'', request r), (''response'', response r)] @
           (case metadata r of None \<Rightarrow> [] | Some v \<Rightarrow> [(''metadata'', v)]))"

text \<open>The receipt that \<open>batchRecord\<close> returns, from the confirmation \<open>receipt\<close> of the batch
  transaction and the reading \<open>t\<close> of \<open>Date.now()\<close>.\<close>

definition batchRecord_receipt ::
  "world \<Rightarrow> ProofConfig \<Rightarrow> json batch_entry list \<Rightarrow> string \<Rightarrow> tx_receipt \<Rightarrow> nat \<Rightarrow> ProofReceipt" where
  "batchRecord_receipt W cfg records ipfsHash receipt t =
     \<lparr>recordId = tx_hash receipt,
      transactionHash = tx_hash receipt,
      blockNumber = tx_blockNumber receipt,
      timestamp = t,
      gasUsed = decimal (tx_gasUsed receipt),
      explorerUrl = getExplorerUrl cfg (tx_hash receipt),
      certificateUrl = template (certificateBaseUrl cfg) @ ''batch/'' @ tx_hash receipt,
      ipfsUrl = template (ipfsGateway cfg) @ ipfsHash,
      cost = \<lparr>proofTokens = decimal (length records * 8),
              gasInPOL = formatEther W (tx_gasUsed receipt * tx_gasPrice receipt)\<rparr>\<rparr>"

text \<open>The steps after the approval: the visibility, the batch transaction, its
  confirmation and the receipt.\<close>

definition batchRecord_anchor ::
  "world \<Rightarrow> ProofConfig \<Rightarrow> json batch_entry list \<Rightarrow> VisibilityLevel option
   \<Rightarrow> string list \<Rightarrow> string list \<Rightarrow> string \<Rightarrow> ProofReceipt io" where
  "batchRecord_anchor W cfg records vis requestHashes responseHashes ipfsHash =
     (let visibilityLevel = resolve_visibility vis in
      io_bind (proofRegistry ''storeBatchRecords''
                 (StoreBatchRecords requestHashes responseHashes ipfsHash visibilityLevel)
                 (\<lambda>h. registry_storeBatchRecords W h requestHashes responseHashes ipfsHash
                        visibilityLevel)) (\<lambda>tx.
      io_bind (io_call (Wait tx) (\<lambda>h. tx_wait W h tx)) (\<lambda>receipt.
      io_bind (dateNow W) (\<lambda>t'.
      io_return (batchRecord_receipt W cfg records ipfsHash receipt t')))))"

text \<open>The hashes, the archive of the batch and the approval, which \<open>batchRecord\<close> runs
  whatever \<open>autoApprove\<close> is; then the rest.\<close>

definition batchRecord_try ::
  "world \<Rightarrow> ProofConfig \<Rightarrow> json batch_entry list \<Rightarrow> VisibilityLevel option \<Rightarrow> ProofReceipt io" where
  "batchRecord_try W cfg records vis =
     (let requestHashes = map (\<lambda>r. hashData W (request r)) records;
          responseHashes = map (\<lambda>r. hashData W (response r)) records in
      io_bind (dateNow W) (\<lambda>t.
      io_bind (uploadToIPFS W cfg
                 (JObj [(''records'', JArr (map entry_json records)),
                        (''timestamp'', JNum (int t)),
                        (''count'', JNum (int (length records)))])) (\<lambda>ipfsHash.
      io_bind (ensureTokenApproval W (length records)) (\<lambda>u.
      batchRecord_anchor W cfg records vis requestHashes responseHashes ipfsHash))))"

definition batchRecord ::
  "world \<Rightarrow> ProofConfig \<Rightarrow> json batch_entry list \<Rightarrow> VisibilityLevel option \<Rightarrow> ProofReceipt io" where
  "batchRecord W cfg records vis =
     io_catch (batchRecord_try W cfg records vis) handleError"

text \<open>The calls of the ensure-allowance step: the price read, the allowance read with the
  address it needs, and the approval transaction.\<close>

fun approval_call :: "call \<Rightarrow> bool" where
  "approval_call RecordPrice = True"
| "approval_call GetAddress = True"
| "approval_call (Allowance owner spender) = True"
| "approval_call (Approve spender amount) = True"
| "approval_call c = False"

text \<open>A computation that, from any history, only makes calls with a given property.\<close>

definition only_calls :: "(call \<Rightarrow> bool) \<Rightarrow> 'a io \<Rightarrow> bool" where
  "only_calls P m = (\<forall>h. \<exists>cs. snd (m h) = h @ cs \<and> list_all P cs)"

text \<open>The anchor submissions.\<close>

fun anchor_call :: "call \<Rightarrow> bool" where
  "anchor_call (StoreAPIRecord requestHash responseHash ipfsHash vis) = True"
| "anchor_call (StoreBatchRecords requestHashes responseHashes ipfsHash vis) = True"
| "anchor_call c = False"

subsection \<open>An example world\<close>

text \<open>
  A world used to run the pipelines on concrete inputs. Every call that the contracts
  forward succeeds: the allowance is zero, and the confirmation of each anchor transaction
  carries the event of its kind among its logs. The registry of the ABI has no
  \<open>recordPrice\<close>; a call of it, were one forwarded, would revert.
\<close>

definition example_logs :: "string \<Rightarrow> log_entry list" where
  "example_logs tx =
     (if tx = ''0xsingle''
      then [UnknownLog,
            ParsedLog ''TokensCollected'' [(''from'', ''0xsigner''), (''amount'', ''10'')],
            ParsedLog ''RecordStored'' [(''recordId'', ''0xrecord1''), (''recorder'', ''0xsigner'')]]
      else if tx = ''0xbatch''
      then [UnknownLog,
            ParsedLog ''TokensCollected'' [(''from'', ''0xsigner''), (''amount'', ''16'')],
            ParsedLog ''BatchRecordStored'' [(''batchId'', ''0xbatch1''), (''recorder'', ''0xsigner'')]]
      else [])"

definition example_world :: world where
  "example_world =
     \<lparr>date_now = (\<lambda>h. 1000 + length h),
      ipfs_upload = (\<lambda>h data encrypt.
        Inr \<lparr>up_cid = ''cid1'', up_url = ''https://ipfs.io/ipfs/cid1'', up_size = 1,
             up_timestamp = 1000 + length h\<rparr>),
      ipfs_createCertificate = (\<lambda>h cert.
        Inr \<lparr>up_cid = ''cid2'', up_url = ''https://ipfs.io/ipfs/cid2'', up_size = 1,
             up_timestamp = 1000 + length h\<rparr>),
      registry_recordPrice = (\<lambda>h. Inl (JsError (Some ''CALL_EXCEPTION'') ''execution reverted'')),
      registry_getAddress = (\<lambda>h. Inr ''0xregistry''),
      token_allowance = (\<lambda>h owner spender. Inr 0),
      token_approve = (\<lambda>h spender amount. Inr ''0xapprove''),
      tx_wait = (\<lambda>h tx.
        Inr \<lparr>tx_hash = tx, tx_blockNumber = 7, tx_gasUsed = 21000, tx_gasPrice = 2,
             tx_logs = example_logs tx\<rparr>),
      registry_storeAPIRecord = (\<lambda>h requestHash responseHash ipfsHash vis. Inr ''0xsingle''),
      registry_storeBatchRecords = (\<lambda>h requestHashes responseHashes ipfsHash vis. Inr ''0xbatch''),
      onRecord_callback = (\<lambda>h receipt. Inr ()),
      signer_address = ''0xsigner'',
      json_stringify = (\<lambda>j. ''{}''),
      sha256_hex = (\<lambda>s. ''00''),
      formatEther = decimal\<rparr>"

definition example_config :: ProofConfig where
  "example_config =
     \<lparr>privateKey = ''0xkey'', network = None, autoApprove = None, encryptData = None,
      ipfsGateway = None, certificateBaseUrl = None, onRecord = False\<rparr>"

definition example_client :: ProofConfig where
  "example_client = client_config (example_config\<lparr>autoApprove := Some False\<rparr>)"

definition example_batch_confirmation :: tx_receipt where
  "example_batch_confirmation =
     \<lparr>tx_hash = ''0xbatch'', tx_blockNumber = 7, tx_gasUsed = 21000, tx_gasPrice = 2,
      tx_logs = example_logs ''0xbatch''\<rparr>"

definition example_response :: http_response where
  "example_response =
     \<lparr>resp_url = ''https://api.example.com/1'', resp_status = 200, resp_statusText = ''OK'',
      resp_headers = [], resp_text = ''ok''\<rparr>"

definition example_record_options :: RecordOptions where
  "example_record_options =
     \<lparr>opt_method = None, opt_headers = None, opt_body = None, opt_metadata = None,
      visibility = None\<rparr>"

definition example_entry :: "json batch_entry" where
  "example_entry =
     \<lparr>request = JObj [(''url'', JStr ''https://api.example.com/1''), (''method'', JStr ''GET'')],
      response = JObj [(''status'', JNum 200)],
      metadata = None\<rparr>"

section \<open>Archive adapter (IPFSService)\<close>

subsection \<open>The environment, the libraries and the storage node\<close>

text \<open>
  A text is represented by its UTF-8 bytes, so that \<open>Buffer.from(text)\<close> and
  \<open>buffer.toString('utf8')\<close> are the identity and both texts and buffers are
  \<^typ>\<open>string\<close>.

  The functions of the libraries are parameters: the content identifier and the size the
  node reports for a content, SHA-256, AES-256-GCM (encryption returns the ciphertext and
  the authentication tag; decryption throws when the tag does not fit), base64,
  \<open>JSON.stringify(data, null, 2)\<close> and \<open>JSON.parse\<close> (\<open>None\<close> when it throws).

  The node is a store of contents by identifier that is reachable or not; \<open>clock\<close> is what
  \<open>Date.now()\<close> reads.
\<close>

record environment =
  ENCRYPTION_KEY :: "string option"
  IPFS_GATEWAY_URL :: "string option"

record library =
  cid_of :: "string \<Rightarrow> string"
  stored_size :: "string \<Rightarrow> nat"
  sha256 :: "string \<Rightarrow> string"
  gcm_encrypt :: "string \<Rightarrow> string \<Rightarrow> string \<Rightarrow> string \<times> string"
  gcm_decrypt :: "string \<Rightarrow> string \<Rightarrow> string \<Rightarrow> string \<Rightarrow> error + string"
  base64_encode :: "string \<Rightarrow> string"
  base64_decode :: "string \<Rightarrow> string"
  stringify_pretty :: "json \<Rightarrow> string"
  json_parse :: "string \<Rightarrow> json option"

record ipfs_world =
  blocks :: "string \<Rightarrow> string option"
  online :: bool
  clock :: nat

record upload_options =
  opt_encrypt :: "bool option"

record retrieve_options =
  opt_decrypt :: "bool option"

text \<open>\<open>process.env.ENCRYPTION_KEY\<close> as a condition: set and not empty.\<close>

definition key_configured :: "environment \<Rightarrow> bool" where
  "key_configured env = (case ENCRYPTION_KEY env of None \<Rightarrow> False | Some k \<Rightarrow> k \<noteq> [])"

definition gatewayUrl :: "environment \<Rightarrow> string" where
  "gatewayUrl env = or_string (IPFS_GATEWAY_URL env) ''https://ipfs.io/ipfs/''"

definition client_add :: "library \<Rightarrow> string \<Rightarrow> ipfs_world \<Rightarrow> (error + string \<times> nat) \<times> ipfs_world" where
  "client_add L content w =
     (if online w
      then (Inr (cid_of L content, stored_size L content),
            w\<lparr>blocks := (blocks w)(cid_of L content \<mapsto> content)\<rparr>)
      else (Inl (JsError None ''fetch failed''), w))"

definition client_cat :: "ipfs_world \<Rightarrow> string \<Rightarrow> error + string" where
  "client_cat w cid =
     (if online w
      then (case blocks w cid of
              Some content \<Rightarrow> Inr content
            | None \<Rightarrow> Inl (JsError None ''request timed out''))
      else Inl (JsError None ''fetch failed''))"

subsection \<open>\<open>encrypt\<close> and \<open>decrypt\<close>\<close>

text \<open>\<open>text.replace(pattern, replacement)\<close> with a text as pattern: the first occurrence.\<close>

fun replace_first :: "string \<Rightarrow> string \<Rightarrow> string \<Rightarrow> string" where
  "replace_first pat rep [] = (if pat = [] then rep else [])"
| "replace_first pat rep (c # cs) =
     (if prefix pat (c # cs) then rep @ drop (length pat) (c # cs)
      else c # replace_first pat rep cs)"

text \<open>\<open>iv\<close> is what \<open>crypto.randomBytes(12)\<close> returns in this call. Past the check of the
  key, \<open>or_string (ENCRYPTION_KEY env) []\<close> is the configured key.\<close>

definition encrypt :: "library \<Rightarrow> environment \<Rightarrow> string \<Rightarrow> string \<Rightarrow> error + string" where
  "encrypt L env content iv =
     (if \<not> key_configured env
      then Inl (JsError None
        ''Encryption key not configured. Set ENCRYPTION_KEY environment variable (32 bytes hex or 64 char string).'')
      else
        (let keyBuffer = sha256 L (or_string (ENCRYPTION_KEY env) []);
             (ciphertext, authTag) = gcm_encrypt L keyBuffer iv content;
             encrypted = base64_encode L ciphertext;
             combined = iv @ authTag @ base64_decode L encrypted
         in Inr (''ENCRYPTED_V2:'' @ base64_encode L combined)))"

definition decrypt :: "library \<Rightarrow> environment \<Rightarrow> string \<Rightarrow> error + string" where
  "decrypt L env content =
     (if \<not> key_configured env
      then Inl (JsError None
        ''Encryption key not configured. Set ENCRYPTION_KEY environment variable.'')
      else if prefix ''ENCRYPTED:'' content
      then Inr (base64_decode L (replace_first ''ENCRYPTED:'' [] content))
      else if \<not> prefix ''ENCRYPTED_V2:'' content
      then Inr content
      else
        (let keyBuffer = sha256 L (or_string (ENCRYPTION_KEY env) []);
             combined = base64_decode L (replace_first ''ENCRYPTED_V2:'' [] content);
             iv = take 12 combined;
             authTag = take 16 (drop 12 combined);
             encryptedData = drop 28 combined
         in gcm_decrypt L keyBuffer iv authTag encryptedData))"

subsection \<open>\<open>upload\<close>, \<open>retrieve\<close> and \<open>uploadBatch\<close>\<close>

definition content_of :: "library \<Rightarrow> json \<Rightarrow> string" where
  "content_of L data = (case data of JStr s \<Rightarrow> s | _ \<Rightarrow> stringify_pretty L data)"

definition upload_failed :: "error \<Rightarrow> error" where
  "upload_failed e = JsError None (''Failed to upload to IPFS: '' @ message e)"

definition retrieve_failed :: "error \<Rightarrow> error" where
  "retrieve_failed e = JsError None (''Failed to retrieve from IPFS: '' @ message e)"

definition upload ::
  "library \<Rightarrow> environment \<Rightarrow> json \<Rightarrow> upload_options \<Rightarrow> string \<Rightarrow> ipfs_world
   \<Rightarrow> (error + upload_result) \<times> ipfs_world" where
  "upload L env data opts iv w =
     (let content = content_of L data;
          sealed = (if opt_encrypt opts = Some True \<and> key_configured env
                    then encrypt L env content iv else Inr content)
      in case sealed of
           Inl e \<Rightarrow> (Inl (upload_failed e), w)
         | Inr finalContent \<Rightarrow>
             (case client_add L finalContent w of
                (Inl e, w') \<Rightarrow> (Inl (upload_failed e), w')
              | (Inr (cid, sz), w') \<Rightarrow>
                  (Inr \<lparr>up_cid = cid, up_url = gatewayUrl env @ cid, up_size = sz,
                        up_timestamp = clock w'\<rparr>, w')))"

definition retrieve ::
  "library \<Rightarrow> environment \<Rightarrow> string \<Rightarrow> retrieve_options \<Rightarrow> ipfs_world \<Rightarrow> error + json" where
  "retrieve L env cid opts w =
     (case client_cat w cid of
        Inl e \<Rightarrow> Inl (retrieve_failed e)
      | Inr stored \<Rightarrow>
          (case (if opt_decrypt opts = Some True \<and> key_configured env
                 then decrypt L env stored else Inr stored) of
             Inl e \<Rightarrow> Inl (retrieve_failed e)
           | Inr content \<Rightarrow>
               (case json_parse L content of
                  Some v \<Rightarrow> Inr v
                | None \<Rightarrow> Inr (JStr content))))"

text \<open>
  \<open>uploadBatch\<close>. \<open>batch.map(record => this.upload(record))\<close> starts the uploads of a chunk in
  the order of the chunk, and \<open>upload_all\<close> runs them in that order, each to its end, whether
  or not an earlier one failed. \<open>Promise.all\<close> collects the results by position and rejects
  when one of them is rejected (here with the first rejection by position). The loop is
  written for any operation \<open>up\<close> on any state.
\<close>

fun upload_all :: "('a \<Rightarrow> 's \<Rightarrow> (error + 'r) \<times> 's) \<Rightarrow> 'a list \<Rightarrow> 's \<Rightarrow> (error + 'r) list \<times> 's" where
  "upload_all up [] s = ([], s)"
| "upload_all up (x # xs) s =
     (case up x s of (r, s') \<Rightarrow>
        (case upload_all up xs s' of (rs, s'') \<Rightarrow> (r # rs, s'')))"

fun promise_all :: "(error + 'r) list \<Rightarrow> error + 'r list" where
  "promise_all [] = Inr []"
| "promise_all (Inl e # rs) = Inl e"
| "promise_all (Inr x # rs) = (case promise_all rs of Inl e \<Rightarrow> Inl e | Inr xs \<Rightarrow> Inr (x # xs))"

function uploadBatch_loop ::
  "('a \<Rightarrow> 's \<Rightarrow> (error + 'r) \<times> 's) \<Rightarrow> 'a list \<Rightarrow> nat \<Rightarrow> 'r list \<Rightarrow> 's \<Rightarrow> (error + 'r list) \<times> 's" where
  "uploadBatch_loop up records i results s =
     (if i < length records
      then (let batch = take 5 (drop i records)
            in case upload_all up batch s of
                 (outcomes, s') \<Rightarrow>
                   (case promise_all outcomes of
                      Inl e \<Rightarrow> (Inl e, s')
                    | Inr batchResults \<Rightarrow>
                        uploadBatch_loop up records (i + 5) (results @ batchResults) s'))
      else (Inr results, s))"
  by pat_completeness auto
termination
  by (relation "measure (\<lambda>(up, records, i, results, s). length records - i)") auto

declare uploadBatch_loop.simps [simp del]

definition upload_plain :: "library \<Rightarrow> environment \<Rightarrow> json \<Rightarrow> ipfs_world \<Rightarrow> (error + upload_result) \<times> ipfs_world" where
  "upload_plain L env data = upload L env data \<lparr>opt_encrypt = None\<rparr> []"

definition uploadBatch ::
  "library \<Rightarrow> environment \<Rightarrow> json list \<Rightarrow> ipfs_world \<Rightarrow> (error + upload_result list) \<times> ipfs_world" where
  "uploadBatch L env records w = uploadBatch_loop (upload_plain L env) records 0 [] w"

text \<open>An upload with \<open>encrypt: true\<close> followed by the retrieval, with \<open>decrypt: true\<close>, of what
  it stored.\<close>

definition upload_then_retrieve ::
  "library \<Rightarrow> environment \<Rightarrow> json \<Rightarrow> string \<Rightarrow> ipfs_world \<Rightarrow> error + json" where
  "upload_then_retrieve L env data iv w =
     (case upload L env data \<lparr>opt_encrypt = Some True\<rparr> iv w of
        (Inl e, w') \<Rightarrow> Inl e
      | (Inr result, w') \<Rightarrow> retrieve L env (up_cid result) \<lparr>opt_decrypt = Some True\<rparr> w')"

subsection \<open>Example libraries\<close>

text \<open>
  Stand-ins with the interfaces of the library functions, used to run the model on
  concrete inputs. The JSON functions agree with the real ones on the texts and values of
  the examples: the literals \<open>null\<close>, \<open>true\<close>, \<open>false\<close> and the natural numbers in decimal.
\<close>

definition is_digit :: "char \<Rightarrow> bool" where
  "is_digit c = (c \<in> set ''0123456789'')"

definition example_json_parse :: "string \<Rightarrow> json option" where
  "example_json_parse s =
     (if s = ''null'' then Some JNull
      else if s = ''true'' then Some (JBool True)
      else if s = ''false'' then Some (JBool False)
      else if s \<noteq> [] \<and> list_all is_digit s \<and> (length s = 1 \<or> hd s \<noteq> CHR ''0'')
      then Some (JNum (int (number_of_decimal s)))
      else None)"

definition example_stringify :: "json \<Rightarrow> string" where
  "example_stringify d =
     (case d of
        JNum n \<Rightarrow> (if 0 \<le> n then decimal (nat n) else ''-'' @ decimal (nat (- n)))
      | JBool b \<Rightarrow> (if b then ''true'' else ''false'')
      | _ \<Rightarrow> ''null'')"

definition example_tag :: string where
  "example_tag = ''tag-of-16-bytes.''"

definition example_library :: library where
  "example_library =
     \<lparr>cid_of = (\<lambda>content. ''bafy-'' @ content),
      stored_size = length,
      sha256 = (\<lambda>s. take 32 (s @ replicate 32 (CHR ''0''))),
      gcm_encrypt = (\<lambda>key iv plaintext. (rev plaintext, example_tag)),
      gcm_decrypt = (\<lambda>key iv authTag ciphertext.
        if authTag = example_tag then Inr (rev ciphertext)
        else Inl (JsError None ''Unsupported state or unable to authenticate data'')),
      base64_encode = (\<lambda>b. b),
      base64_decode = (\<lambda>t. t),
      stringify_pretty = example_stringify,
      json_parse = example_json_parse\<rparr>"

definition example_environment :: environment where
  "example_environment = \<lparr>ENCRYPTION_KEY = Some ''secret-key'', IPFS_GATEWAY_URL = None\<rparr>"

definition keyless_environment :: environment where
  "keyless_environment = \<lparr>ENCRYPTION_KEY = None, IPFS_GATEWAY_URL = None\<rparr>"

definition empty_node :: ipfs_world where
  "empty_node = \<lparr>blocks = (\<lambda>cid. None), online = True, clock = 1000\<rparr>"

definition example_iv :: string where
  "example_iv = ''nonce-12-byt''"

section \<open>Properties of the interception layer\<close>

lemma first_match_total:
  "(\<forall>p\<in>set ps. \<exists>b. matchPattern rx path p = Inr b) \<Longrightarrow>
   first_match rx path ps = Inr (\<exists>p\<in>set ps. matchPattern rx path p = Inr True)"
proof (induction ps)
  case Nil
  then show ?case by simp
next
  case (Cons p ps)
  then obtain b where b: "matchPattern rx path p = Inr b" by auto
  from Cons have ih: "first_match rx path ps = Inr (\<exists>p\<in>set ps. matchPattern rx path p = Inr True)"
    by simp
  show ?case using b ih by (cases b) auto
qed

lemma first_match_hit:
  "p \<in> set ps \<Longrightarrow> matchPattern rx path p = Inr True \<Longrightarrow> first_match rx path ps \<noteq> Inr False"
  by (induction ps) (auto split: sum.splits bool.splits)

lemmas pattern_eval = shouldRecord_def check_include_def matchPattern_def replace_stars_def
  wildcard_regexp_def syntax_char_def line_terminator_def ascii_def example_options_def

text \<open>
  The include rule reads the presence of the option, \<open>if (this.options.patterns)\<close>, and an
  empty array is present: with \<open>patterns: []\<close> no include pattern is configured and yet no
  path is recorded, where without the option every path that is not excluded is.
\<close>

theorem shouldRecord_empty_patterns_counterexample:
  "shouldRecord wildcard_regexp
     \<lparr>patterns = Some [], excludePatterns = Some [''/health''],
      batchInterval = None, batchSize = None\<rparr> ''/api/users'' = Inr False \<and>
   shouldRecord wildcard_regexp
     \<lparr>patterns = None, excludePatterns = Some [''/health''],
      batchInterval = None, batchSize = None\<rparr> ''/api/users'' = Inr True"
  by (simp add: pattern_eval)

text \<open>
  C6 (amended). With \<open>excludePatterns = ["/health"]\<close> and \<open>patterns = ["/api/*"]\<close>,
  \<open>shouldRecord\<close> answers true for \<open>/api/users\<close>, false for \<open>/health\<close> and false for \<open>/other\<close>.
  In general, whatever the engine does: an exclude pattern that matches keeps
  \<open>shouldRecord\<close> from answering true; and when no pattern makes the engine throw,
  \<open>shouldRecord\<close> answers true exactly when no exclude pattern matches and either the
  \<open>patterns\<close> option is absent or one of its patterns matches (with the option present and
  empty none does, and the answer is false).
\<close>

theorem shouldRecord_patterns:
  "shouldRecord wildcard_regexp example_options ''/api/users'' = Inr True \<and>
   shouldRecord wildcard_regexp example_options ''/health'' = Inr False \<and>
   shouldRecord wildcard_regexp example_options ''/other'' = Inr False \<and>
   (\<forall>rx opts path ex p.
      excludePatterns opts = Some ex \<and> p \<in> set ex \<and> matchPattern rx path p = Inr True
      \<longrightarrow> shouldRecord rx opts path \<noteq> Inr True) \<and>
   (\<forall>rx opts path.
      (\<forall>p \<in> set (case excludePatterns opts of None \<Rightarrow> [] | Some ex \<Rightarrow> ex)
              \<union> set (case patterns opts of None \<Rightarrow> [] | Some ps \<Rightarrow> ps).
         \<exists>b. matchPattern rx path p = Inr b)
      \<longrightarrow> shouldRecord rx opts path =
          Inr (\<not> (\<exists>p \<in> set (case excludePatterns opts of None \<Rightarrow> [] | Some ex \<Rightarrow> ex).
                    matchPattern rx path p = Inr True) \<and>
               (case patterns opts of
                  None \<Rightarrow> True
                | Some ps \<Rightarrow> \<exists>p \<in> set ps. matchPattern rx path p = Inr True)))"
proof (intro conjI allI impI)
  show "shouldRecord wildcard_regexp example_options ''/api/users'' = Inr True"
    by (simp add: pattern_eval)
  show "shouldRecord wildcard_regexp example_options ''/health'' = Inr False"
    by (simp add: pattern_eval)
  show "shouldRecord wildcard_regexp example_options ''/other'' = Inr False"
    by (simp add: pattern_eval)
next
  fix rx and opts :: ProofMiddlewareOptions and path ex p
  assume a: "excludePatterns opts = Some ex \<and> p \<in> set ex \<and> matchPattern rx path p = Inr True"
  then have "first_match rx path ex \<noteq> Inr False" using first_match_hit by blast
  with a show "shouldRecord rx opts path \<noteq> Inr True"
    by (auto simp: shouldRecord_def split: sum.splits bool.splits)
next
  fix rx and opts :: ProofMiddlewareOptions and path
  assume a: "\<forall>p \<in> set (case excludePatterns opts of None \<Rightarrow> [] | Some ex \<Rightarrow> ex)
              \<union> set (case patterns opts of None \<Rightarrow> [] | Some ps \<Rightarrow> ps).
         \<exists>b. matchPattern rx path p = Inr b"
  show "shouldRecord rx opts path =
          Inr (\<not> (\<exists>p \<in> set (case excludePatterns opts of None \<Rightarrow> [] | Some ex \<Rightarrow> ex).
                    matchPattern rx path p = Inr True) \<and>
               (case patterns opts of
                  None \<Rightarrow> True
                | Some ps \<Rightarrow> \<exists>p \<in> set ps. matchPattern rx path p = Inr True))"
  proof (cases "excludePatterns opts")
    case None
    show ?thesis
    proof (cases "patterns opts")
      case None
      with \<open>excludePatterns opts = None\<close> show ?thesis
        by (simp add: shouldRecord_def check_include_def)
    next
      case (Some ps)
      with a have "first_match rx path ps = Inr (\<exists>p\<in>set ps. matchPattern rx path p = Inr True)"
        by (intro first_match_total) auto
      with Some \<open>excludePatterns opts = None\<close> show ?thesis
        by (simp add: shouldRecord_def check_include_def)
    qed
  next
    case (Some ex)
    with a have ex: "first_match rx path ex = Inr (\<exists>p\<in>set ex. matchPattern rx path p = Inr True)"
      by (intro first_match_total) auto
    show ?thesis
    proof (cases "patterns opts")
      case None
      with Some ex show ?thesis
        by (auto simp add: shouldRecord_def check_include_def split: bool.splits)
    next
      case (Some ps)
      with a have "first_match rx path ps = Inr (\<exists>p\<in>set ps. matchPattern rx path p = Inr True)"
        by (intro first_match_total) auto
      with Some \<open>excludePatterns opts = Some ex\<close> ex show ?thesis
        by (auto simp add: shouldRecord_def check_include_def split: bool.splits)
    qed
  qed
qed

theorem shouldRecord_patterns_witness:
  "matchPattern wildcard_regexp ''/health'' ''/health'' = Inr True \<and>
   shouldRecord wildcard_regexp example_options ''/health'' \<noteq> Inr True \<and>
   matchPattern wildcard_regexp ''/api/users'' ''/health'' = Inr False \<and>
   matchPattern wildcard_regexp ''/api/users'' ''/api/*'' = Inr True \<and>
   shouldRecord wildcard_regexp example_options ''/api/users'' = Inr True"
proof -
  have h1: "excludePatterns example_options = Some [''/health''] \<and> ''/health'' \<in> set [''/health''] \<and>
            matchPattern wildcard_regexp ''/health'' ''/health'' = Inr True"
    by (simp add: pattern_eval)
  have m1: "matchPattern wildcard_regexp ''/api/users'' ''/health'' = Inr False"
    and m2: "matchPattern wildcard_regexp ''/api/users'' ''/api/*'' = Inr True"
    by (simp_all add: pattern_eval)
  have h2: "\<forall>p \<in> set (case excludePatterns example_options of None \<Rightarrow> [] | Some ex \<Rightarrow> ex)
              \<union> set (case patterns example_options of None \<Rightarrow> [] | Some ps \<Rightarrow> ps).
         \<exists>b. matchPattern wildcard_regexp ''/api/users'' p = Inr b"
    using m1 m2 by (auto simp add: example_options_def)
  from shouldRecord_patterns have
    veto: "\<forall>rx (opts :: ProofMiddlewareOptions) path ex p.
      excludePatterns opts = Some ex \<and> p \<in> set ex \<and> matchPattern rx path p = Inr True
      \<longrightarrow> shouldRecord rx opts path \<noteq> Inr True"
    by (elim conjE)
  from veto h1 have a: "shouldRecord wildcard_regexp example_options ''/health'' \<noteq> Inr True"
    by blast
  from shouldRecord_patterns have
    rule: "\<forall>rx (opts :: ProofMiddlewareOptions) path.
      (\<forall>p \<in> set (case excludePatterns opts of None \<Rightarrow> [] | Some ex \<Rightarrow> ex)
              \<union> set (case patterns opts of None \<Rightarrow> [] | Some ps \<Rightarrow> ps).
         \<exists>b. matchPattern rx path p = Inr b)
      \<longrightarrow> shouldRecord rx opts path =
          Inr (\<not> (\<exists>p \<in> set (case excludePatterns opts of None \<Rightarrow> [] | Some ex \<Rightarrow> ex).
                    matchPattern rx path p = Inr True) \<and>
               (case patterns opts of
                  None \<Rightarrow> True
                | Some ps \<Rightarrow> \<exists>p \<in> set ps. matchPattern rx path p = Inr True))"
    by (elim conjE)
  with h2 have "shouldRecord wildcard_regexp example_options ''/api/users'' =
          Inr (\<not> (\<exists>p \<in> set (case excludePatterns example_options of None \<Rightarrow> [] | Some ex \<Rightarrow> ex).
                    matchPattern wildcard_regexp ''/api/users'' p = Inr True) \<and>
               (case patterns example_options of
                  None \<Rightarrow> True
                | Some ps \<Rightarrow> \<exists>p \<in> set ps. matchPattern wildcard_regexp ''/api/users'' p = Inr True))"
    by blast
  then have b: "shouldRecord wildcard_regexp example_options ''/api/users'' = Inr True"
    using m1 m2 by (simp add: example_options_def)
  show ?thesis using a b h1 m1 m2 by simp
qed

lemma wf_new: "wf (new_middleware opts)"
  by (simp add: wf_def new_middleware_def startBatchProcessing_def Let_def)

lemma wf_processBatch: "wf m \<Longrightarrow> wf (processBatch m)"
  by (auto simp: wf_def processBatch_def Let_def)

lemma wf_addToBatch: "wf m \<Longrightarrow> wf (addToBatch rq rs now m)"
proof -
  assume w: "wf m"
  let ?m' = "m\<lparr>arrays := (arrays m)(batchQueue m := arrays m (batchQueue m) @
                  [\<lparr>request = rq, response = rs, metadata = Some now\<rparr>])\<rparr>"
  from w have "wf ?m'" by (simp add: wf_def)
  then have "wf (processBatch ?m')" by (rule wf_processBatch)
  with \<open>wf ?m'\<close> show ?thesis by (simp add: addToBatch_def Let_def)
qed

lemma wf_step: "wf m \<Longrightarrow> wf (step e m)"
  by (cases e) (auto simp: wf_addToBatch wf_processBatch timer_fires_def timer_callback_def split: option.splits)

lemma wf_run: "wf m \<Longrightarrow> wf (run es m)"
  by (induction es arbitrary: m) (auto simp: wf_step)

lemma processBatch_flushed:
  "wf m \<Longrightarrow> flushed (processBatch m) = flushed m @ (if queued m = [] then [] else [queued m])"
  by (auto simp: wf_def processBatch_def flushed_def queued_def Let_def)

lemma processBatch_queued: "queued (processBatch m) = []"
  by (auto simp: processBatch_def queued_def Let_def)

lemma addToBatch_parts:
  "wf m \<Longrightarrow> concat (flushed (addToBatch rq rs now m)) @ queued (addToBatch rq rs now m) =
     concat (flushed m) @ queued m @ [\<lparr>request = rq, response = rs, metadata = Some now\<rparr>]"
proof -
  assume w: "wf m"
  let ?e = "\<lparr>request = rq, response = rs, metadata = Some now\<rparr>"
  let ?m' = "m\<lparr>arrays := (arrays m)(batchQueue m := arrays m (batchQueue m) @ [?e])\<rparr>"
  from w have w': "wf ?m'" by (simp add: wf_def)
  from w have f: "flushed ?m' = flushed m" by (auto simp: flushed_def wf_def)
  have q: "queued ?m' = queued m @ [?e]" by (simp add: queued_def)
  have "concat (flushed (processBatch ?m')) @ queued (processBatch ?m') = concat (flushed m) @ queued m @ [?e]"
    using processBatch_flushed[OF w'] processBatch_queued[of ?m'] f q by simp
  then show ?thesis using f q by (simp add: addToBatch_def Let_def)
qed

lemma step_parts:
  "wf m \<Longrightarrow> concat (flushed (step e m)) @ queued (step e m) = concat (flushed m) @ queued m @ appended [e]"
proof (cases e)
  case (Append rq rs now)
  assume "wf m"
  then show ?thesis using Append by (simp add: addToBatch_parts)
next
  case TimerFires
  assume "wf m"
  then show ?thesis using TimerFires
    by (simp add: timer_fires_def timer_callback_def processBatch_flushed processBatch_queued split: option.splits)
next
  case Flush
  assume "wf m"
  then show ?thesis using Flush
    by (simp add: processBatch_flushed processBatch_queued)
qed

lemma appended_Cons: "appended (e # es) = appended [e] @ appended es"
  by (cases e) simp_all

lemma run_parts:
  "wf m \<Longrightarrow> concat (flushed (run es m)) @ queued (run es m) = concat (flushed m) @ queued m @ appended es"
proof (induction es arbitrary: m)
  case Nil
  then show ?case by simp
next
  case (Cons e es)
  from Cons.prems have "wf (step e m)" by (rule wf_step)
  from Cons.IH[OF this] step_parts[OF Cons.prems, of e] appended_Cons[of e es]
  show ?case by simp
qed

lemma processBatch_keeps:
  "wf m \<Longrightarrow> take (length (flushed m)) (flushed (processBatch m)) = flushed m"
  by (simp add: processBatch_flushed)

lemma addToBatch_keeps:
  "wf m \<Longrightarrow> take (length (flushed m)) (flushed (addToBatch rq rs now m)) = flushed m"
proof -
  assume w: "wf m"
  let ?e = "\<lparr>request = rq, response = rs, metadata = Some now\<rparr>"
  let ?m' = "m\<lparr>arrays := (arrays m)(batchQueue m := arrays m (batchQueue m) @ [?e])\<rparr>"
  from w have w': "wf ?m'" by (simp add: wf_def)
  from w have f: "flushed ?m' = flushed m" by (auto simp: flushed_def wf_def)
  from processBatch_keeps[OF w'] f show ?thesis by (simp add: addToBatch_def Let_def)
qed

lemma step_keeps: "wf m \<Longrightarrow> take (length (flushed m)) (flushed (step e m)) = flushed m"
  by (cases e) (auto simp: addToBatch_keeps processBatch_keeps timer_fires_def timer_callback_def split: option.splits)

lemma take_take_prefix:
  "take (length a) b = a \<Longrightarrow> take (length b) c = b \<Longrightarrow> take (length a) c = a"
  by (metis append_eq_conv_conj append_take_drop_id append.assoc)

lemma run_keeps: "wf m \<Longrightarrow> take (length (flushed m)) (flushed (run es m)) = flushed m"
proof (induction es arbitrary: m)
  case Nil
  then show ?case by simp
next
  case (Cons e es)
  from Cons.prems have w: "wf (step e m)" by (rule wf_step)
  from take_take_prefix[OF step_keeps[OF Cons.prems, of e] Cons.IH[OF w]]
  show ?case by simp
qed

text \<open>
  C4. After any sequence of appends, timer firings and flushes on a new middleware: the
  batches of the flushes so far, in order, followed by the queue, are exactly the entries
  appended, in order, so each entry is in one flush or still queued, never in two and
  never lost; whatever happens later leaves the batches already handed out as they were,
  so an entry appended during a submission is not in it; and a flush leaves the queue
  empty and hands out the whole queue as one batch, or nothing when the queue was empty.
\<close>

theorem flush_consumes_each_entry_once:
  "concat (flushed (run evs (new_middleware opts))) @ queued (run evs (new_middleware opts)) = appended evs \<and>
   take (length (flushed (run evs (new_middleware opts))))
        (flushed (run later (run evs (new_middleware opts)))) = flushed (run evs (new_middleware opts)) \<and>
   queued (step Flush (run evs (new_middleware opts))) = [] \<and>
   flushed (step Flush (run evs (new_middleware opts))) =
     flushed (run evs (new_middleware opts)) @
       (if queued (run evs (new_middleware opts)) = [] then [] else [queued (run evs (new_middleware opts))])"
proof -
  let ?m = "run evs (new_middleware opts) :: 'a middleware"
  have w: "wf ?m" by (rule wf_run[OF wf_new])
  have q0: "queued (new_middleware opts :: 'a middleware) = []"
    by (simp add: queued_def new_middleware_def startBatchProcessing_def Let_def)
  have f0: "flushed (new_middleware opts :: 'a middleware) = []"
    by (simp add: flushed_def new_middleware_def startBatchProcessing_def Let_def)
  have a: "concat (flushed ?m) @ queued ?m = appended evs"
    using run_parts[OF wf_new, of evs opts] q0 f0 by simp
  have b: "take (length (flushed ?m)) (flushed (run later ?m)) = flushed ?m"
    by (rule run_keeps[OF w])
  have c: "queued (step Flush ?m) = []"
    by (simp add: processBatch_queued)
  have d: "flushed (step Flush ?m) = flushed ?m @ (if queued ?m = [] then [] else [queued ?m])"
    using processBatch_flushed[OF w] by simp
  from a b c d show ?thesis by blast
qed

theorem flush_consumes_each_entry_once_witness:
  "concat (flushed (run [Append (1::nat) 2 3, Append 4 5 6, Append 7 8 9] (new_middleware batch_options))) @
     queued (run [Append (1::nat) 2 3, Append 4 5 6, Append 7 8 9] (new_middleware batch_options)) =
   [\<lparr>request = 1, response = 2, metadata = Some 3\<rparr>, \<lparr>request = 4, response = 5, metadata = Some 6\<rparr>,
    \<lparr>request = 7, response = 8, metadata = Some 9\<rparr>] \<and>
   flushed (run [Append (1::nat) 2 3, Append 4 5 6, Append 7 8 9] (new_middleware batch_options)) =
   [[\<lparr>request = 1, response = 2, metadata = Some 3\<rparr>, \<lparr>request = 4, response = 5, metadata = Some 6\<rparr>]] \<and>
   take 1 (flushed (run [Append 10 11 12, TimerFires]
        (run [Append (1::nat) 2 3, Append 4 5 6, Append 7 8 9] (new_middleware batch_options)))) =
   [[\<lparr>request = 1, response = 2, metadata = Some 3\<rparr>, \<lparr>request = 4, response = 5, metadata = Some 6\<rparr>]]"
proof -
  have f: "flushed (run [Append (1::nat) 2 3, Append 4 5 6, Append 7 8 9] (new_middleware batch_options)) =
   [[\<lparr>request = 1, response = 2, metadata = Some 3\<rparr>, \<lparr>request = 4, response = 5, metadata = Some 6\<rparr>]]"
    by (simp add: flushed_def new_middleware_def batch_options_def startBatchProcessing_def
        truthy_number_def or_default_def addToBatch_def processBatch_def Let_def)
  show ?thesis
    using flush_consumes_each_entry_once
      [of "[Append (1::nat) 2 3, Append 4 5 6, Append 7 8 9]" batch_options "[Append 10 11 12, TimerFires]"] f
    by simp
qed














section \<open>Properties of the recording orchestrator\<close>

lemma only_calls_return: "only_calls P (io_return x)"
  by (simp add: only_calls_def io_return_def)

lemma only_calls_throw: "only_calls P (io_throw e)"
  by (simp add: only_calls_def io_throw_def)

lemma only_calls_call: "P c \<Longrightarrow> only_calls P (io_call c a)"
  by (simp add: only_calls_def io_call_def)

lemma only_calls_await: "only_calls P (\<lambda>h. (r, h))"
  by (simp add: only_calls_def)

lemma only_calls_bind:
  assumes "only_calls P m" and "\<And>x. only_calls P (f x)"
  shows "only_calls P (io_bind m f)"
  unfolding only_calls_def
proof
  fix h
  from assms(1) obtain cs where cs: "snd (m h) = h @ cs" "list_all P cs"
    unfolding only_calls_def by blast
  show "\<exists>cs. snd (io_bind m f h) = h @ cs \<and> list_all P cs"
  proof (cases "m h")
    case (Pair r h')
    with cs have h': "h' = h @ cs" by simp
    show ?thesis
    proof (cases r)
      case (Inl e)
      with Pair h' cs show ?thesis by (auto simp: io_bind_def)
    next
      case (Inr x)
      from assms(2)[of x] obtain ds where ds: "snd (f x h') = h' @ ds" "list_all P ds"
        unfolding only_calls_def by blast
      with Pair Inr h' cs show ?thesis by (auto simp: io_bind_def)
    qed
  qed
qed

lemma only_calls_catch:
  assumes "only_calls P m" and "\<And>e. only_calls P (f e)"
  shows "only_calls P (io_catch m f)"
  unfolding only_calls_def
proof
  fix h
  from assms(1) obtain cs where cs: "snd (m h) = h @ cs" "list_all P cs"
    unfolding only_calls_def by blast
  show "\<exists>cs. snd (io_catch m f h) = h @ cs \<and> list_all P cs"
  proof (cases "m h")
    case (Pair r h')
    with cs have h': "h' = h @ cs" by simp
    show ?thesis
    proof (cases r)
      case (Inr x)
      with Pair h' cs show ?thesis by (auto simp: io_catch_def)
    next
      case (Inl e)
      from assms(2)[of e] obtain ds where ds: "snd (f e h') = h' @ ds" "list_all P ds"
        unfolding only_calls_def by blast
      with Pair Inl h' cs show ?thesis by (auto simp: io_catch_def)
    qed
  qed
qed

lemma only_calls_contract_method: "P c \<Longrightarrow> only_calls P (contract_method abi object name c a)"
  by (simp add: contract_method_def only_calls_call only_calls_throw)

lemmas only_calls_intros = only_calls_bind only_calls_catch only_calls_return only_calls_throw
  only_calls_call only_calls_await only_calls_contract_method

lemma only_calls_handleError: "only_calls (\<lambda>c. \<not> approval_call c) (handleError e)"
  unfolding handleError_def
  by (auto intro!: only_calls_intros)

lemma record_skips_approval:
  assumes "autoApprove cfg \<noteq> Some True"
  shows "only_calls (\<lambda>c. \<not> approval_call c) (record_fn W cfg fetched opts)"
  unfolding record_fn_def record_try_def record_anchor_def record_confirm_def uploadToIPFS_def
    emit_def dateNow_def proofRegistry_def Let_def
  using assms
  by (auto intro!: only_calls_intros only_calls_handleError)

lemma bind_success:
  "io_bind m f h = (Inr y, h') \<Longrightarrow> \<exists>x h1. m h = (Inr x, h1) \<and> f x h1 = (Inr y, h')"
  by (auto simp: io_bind_def split: prod.splits sum.splits)

lemma handleError_throws: "handleError e h \<noteq> (Inr y, h')"
  by (simp add: handleError_def io_throw_def io_bind_def io_call_def)

lemma catch_success:
  "io_catch m handleError h = (Inr y, h') \<Longrightarrow> m h = (Inr y, h')"
  by (auto simp: io_catch_def handleError_throws split: prod.splits sum.splits)

lemma return_success: "io_return x h = (Inr y, h') \<Longrightarrow> y = x \<and> h' = h"
  by (simp add: io_return_def)

lemma call_success: "io_call c a h = (Inr y, h') \<Longrightarrow> a h = Inr y \<and> h' = h @ [c]"
  by (simp add: io_call_def)

lemma decimal_digit: "d < 10 \<Longrightarrow> digit_value (digit d) = d"
proof -
  assume "d < 10"
  then have "d = 0 \<or> d = 1 \<or> d = 2 \<or> d = 3 \<or> d = 4 \<or> d = 5 \<or> d = 6 \<or> d = 7 \<or> d = 8 \<or> d = 9"
    by arith
  then show ?thesis
    by (elim disjE) (simp_all add: digit_value_def digit_def)
qed

lemma number_of_decimal_append:
  "number_of_decimal (s @ [c]) = number_of_decimal s * 10 + digit_value c"
  by (simp add: number_of_decimal_def)

lemma number_of_decimal_decimal: "number_of_decimal (decimal n) = n"
proof (induction n rule: decimal.induct)
  case (1 n)
  show ?case
  proof (cases "n < 10")
    case True
    then show ?thesis
      by (subst decimal.simps) (simp add: number_of_decimal_def decimal_digit)
  next
    case False
    with 1 have ih: "number_of_decimal (decimal (n div 10)) = n div 10" by simp
    have "n mod 10 < 10" by simp
    then have "digit_value (digit (n mod 10)) = n mod 10" by (rule decimal_digit)
    with False ih show ?thesis
      by (subst decimal.simps) (simp add: number_of_decimal_append)
  qed
qed

text \<open>The registry of the ABI has no \<open>recordPrice\<close>: the approval step throws at its first
  statement, in every world and from every history, and \<open>batchRecord\<close>, which runs the
  step unguarded, never returns a receipt and never submits the anchor.\<close>

lemma ensureTokenApproval_throws:
  "ensureTokenApproval W n h =
     (Inl (JsError None ''this.proofRegistry.recordPrice is not a function''), h)"
  by (simp add: ensureTokenApproval_def proofRegistry_def contract_method_def
      PROOF_REGISTRY_ABI_def io_bind_def io_throw_def)

lemma batchRecord_never_returns: "batchRecord W cfg records vis h \<noteq> (Inr r, h')"
proof
  assume "batchRecord W cfg records vis h = (Inr r, h')"
  then have "batchRecord_try W cfg records vis h = (Inr r, h')"
    unfolding batchRecord_def by (rule catch_success)
  then show False
    unfolding batchRecord_try_def Let_def
    by (auto dest!: bind_success simp: ensureTokenApproval_throws)
qed

lemma only_calls_after_approval: "only_calls P (io_bind (ensureTokenApproval W n) f)"
  by (simp add: only_calls_def io_bind_def ensureTokenApproval_throws)

lemma only_calls_handleError_anchor: "only_calls (\<lambda>c. \<not> anchor_call c) (handleError e)"
  unfolding handleError_def
  by (auto intro!: only_calls_intros)

lemma only_calls_uploadToIPFS: "only_calls (\<lambda>c. \<not> anchor_call c) (uploadToIPFS W cfg data)"
  unfolding uploadToIPFS_def Let_def
  by (auto intro!: only_calls_intros)

lemma batchRecord_never_anchors:
  "only_calls (\<lambda>c. \<not> anchor_call c) (batchRecord W cfg records vis)"
  unfolding batchRecord_def batchRecord_try_def Let_def
proof (rule only_calls_catch)
  show "only_calls (\<lambda>c. \<not> anchor_call c) (handleError e)" for e :: error
    by (rule only_calls_handleError_anchor)
next
  let ?rest = "\<lambda>t. io_bind
       (uploadToIPFS W cfg
         (JObj [(''records'', JArr (map entry_json records)), (''timestamp'', JNum (int t)),
                (''count'', JNum (int (length records)))]))
       (\<lambda>ipfsHash. io_bind (ensureTokenApproval W (length records))
          (\<lambda>u. batchRecord_anchor W cfg records vis (map (\<lambda>r. hashData W (request r)) records)
                 (map (\<lambda>r. hashData W (response r)) records) ipfsHash))"
  have "only_calls (\<lambda>c. \<not> anchor_call c) (?rest t)" for t
    by (rule only_calls_bind) (rule only_calls_uploadToIPFS, rule only_calls_after_approval)
  moreover have "only_calls (\<lambda>c. \<not> anchor_call c) (dateNow W)"
    by (simp add: dateNow_def only_calls_call)
  ultimately show "only_calls (\<lambda>c. \<not> anchor_call c) (io_bind (dateNow W) ?rest)"
    by (rule only_calls_bind[rotated])
qed

lemma batchRecord_receipt_cost:
  "number_of_decimal (proofTokens (cost (batchRecord_receipt W cfg records ipfsHash receipt t))) =
     length records * 8"
  by (simp add: batchRecord_receipt_def number_of_decimal_decimal)


lemma record_receipt:
  assumes "record_fn W cfg fetched opts h = (Inr (res, r), h')"
  shows "proofTokens (cost r) = ''10''"
proof -
  from assms have "record_try W cfg fetched opts h = (Inr (res, r), h')"
    unfolding record_fn_def by (rule catch_success)
  then show ?thesis
    unfolding record_try_def record_anchor_def record_confirm_def Let_def
    by (auto simp: record_receipt_of_def dest!: bind_success return_success)
qed


lemma emit_history: "emit W cfg ev r h = (x, h') \<Longrightarrow> h' = h \<or> h' = h @ [OnRecord r]"
  by (auto simp: emit_def io_call_def io_return_def split: if_splits)

lemma record_confirm_history:
  "record_confirm W cfg res st ih tx h = (r, h') \<Longrightarrow> \<exists>cs. h' = h @ cs"
  unfolding record_confirm_def Let_def
  by (auto simp: io_bind_def io_call_def io_return_def dest!: emit_history split: sum.splits prod.splits)

lemma record_anchor_submits:
  assumes "record_anchor W cfg opts res st rqh rsh ih h = (Inr y, h')"
  shows "StoreAPIRecord rqh rsh ih (resolve_visibility (visibility opts)) \<in> set h'"
proof -
  let ?c = "StoreAPIRecord rqh rsh ih (resolve_visibility (visibility opts))"
  from assms obtain h1 tx h2 where
    s: "proofRegistry ''storeAPIRecord'' ?c
          (\<lambda>h. registry_storeAPIRecord W h rqh rsh ih (resolve_visibility (visibility opts))) h1 =
        (Inr tx, h2)"
    and rest: "record_confirm W cfg res st ih tx h2 = (Inr y, h')"
    unfolding record_anchor_def Let_def by (blast dest!: bind_success)
  from s have h2: "h2 = h1 @ [?c]"
    by (simp add: proofRegistry_def contract_method_def PROOF_REGISTRY_ABI_def io_call_def)
  from record_confirm_history[OF rest] h2 show ?thesis by auto
qed

lemma record_submits:
  assumes "record_fn W cfg fetched opts h = (Inr y, h')"
  shows "\<exists>rqh rsh ih. StoreAPIRecord rqh rsh ih (resolve_visibility (visibility opts)) \<in> set h'"
proof -
  from assms have "record_try W cfg fetched opts h = (Inr y, h')"
    unfolding record_fn_def by (rule catch_success)
  then show ?thesis
    unfolding record_try_def Let_def
    by (blast dest!: bind_success dest: record_anchor_submits)
qed

lemmas client_eval = record_fn_def record_try_def record_anchor_def record_confirm_def
  certificate_request_def record_receipt_of_def batchRecord_def batchRecord_try_def
  batchRecord_anchor_def batchRecord_receipt_def handleError_def
  proofRegistry_def proofToken_def contract_method_def PROOF_REGISTRY_ABI_def PROOF_TOKEN_ABI_def
  io_bind_def io_call_def io_return_def io_throw_def io_catch_def dateNow_def uploadToIPFS_def
  ensureTokenApproval_def emit_def hashData_def requestData_of_def responseData_of_def
  extract_recordId_def is_event_def resolve_visibility_def or_string_def or_json_def template_def
  getExplorerUrl_def client_config_def example_world_def example_logs_def example_config_def
  example_client_def example_batch_confirmation_def
  example_response_def example_record_options_def example_entry_def entry_json_def
  decimal.simps digit_def Let_def

lemma extract_recordId_found:
  "find (is_event ''RecordStored'') logs = Some (ParsedLog n args) \<Longrightarrow>
   map_of args ''recordId'' = Some rid \<Longrightarrow> rid \<noteq> [] \<Longrightarrow>
   extract_recordId logs tx = rid"
  by (simp add: extract_recordId_def or_string_def)

lemma extract_recordId_fallback:
  "find (is_event ''RecordStored'') logs = None \<Longrightarrow> extract_recordId logs tx = tx"
  by (simp add: extract_recordId_def)

lemma record_confirm_recordId:
  assumes "record_confirm W cfg res st ih tx h = (Inr (res', r), h')"
  shows "\<exists>receipt :: tx_receipt. transactionHash r = tx_hash receipt \<and>
           recordId r = extract_recordId (tx_logs receipt) tx"
  using assms unfolding record_confirm_def Let_def
  by (auto simp: record_receipt_of_def dest!: bind_success return_success)

lemma record_recordId:
  assumes "record_fn W cfg fetched opts h = (Inr (res, r), h')"
  shows "\<exists>tx (receipt :: tx_receipt). transactionHash r = tx_hash receipt \<and>
           recordId r = extract_recordId (tx_logs receipt) tx"
proof -
  from assms have "record_try W cfg fetched opts h = (Inr (res, r), h')"
    unfolding record_fn_def by (rule catch_success)
  then obtain st res0 ih tx h1 where "record_confirm W cfg res0 st ih tx h1 = (Inr (res, r), h')"
    unfolding record_try_def record_anchor_def Let_def
    by (blast dest!: bind_success)
  from record_confirm_recordId[OF this] show ?thesis by blast
qed

lemma batchRecord_ignores_autoApprove:
  "batchRecord W (cfg\<lparr>autoApprove := a\<rparr>) records vis = batchRecord W cfg records vis"
  by (simp add: batchRecord_def batchRecord_try_def batchRecord_anchor_def batchRecord_receipt_def
      uploadToIPFS_def getExplorerUrl_def)

lemma batchRecord_anchor_receipt:
  assumes "batchRecord_anchor W cfg records vis rqs rss ipfsHash h = (Inr r, h')"
  shows "recordId r = transactionHash r \<and> proofTokens (cost r) = decimal (length records * 8)"
  using assms unfolding batchRecord_anchor_def Let_def
  by (auto simp: batchRecord_receipt_def dest!: bind_success return_success)

text \<open>
  C8 (the code departs from the claim). \<open>batchRecord\<close> yields no receipt: in every world,
  for every configuration, list of records and history it ends with an exception, the
  \<open>TypeError\<close> of the call \<open>this.proofRegistry.recordPrice()\<close> in the approval step, as on two
  records in the example world. The receipt that the code builds from a confirmation
  carries the decimal text of \<open>N * 8\<close> as its token cost, \<open>16\<close> when the steps after the
  approval are run on two records, and the receipt of \<open>record\<close> carries \<open>10\<close>.
\<close>

theorem batchRecord_yields_no_receipt:
  "batchRecord W cfg records vis h \<noteq> (Inr r, h') \<and>
   fst (batchRecord example_world example_client [example_entry, example_entry] None []) =
     Inl (JsError None ''this.proofRegistry.recordPrice is not a function'') \<and>
   number_of_decimal
     (proofTokens (cost (batchRecord_receipt W cfg records ipfsHash receipt t))) =
     length records * 8 \<and>
   map_sum id (\<lambda>r. proofTokens (cost r))
     (fst (batchRecord_anchor example_world example_client [example_entry, example_entry] None
            [''0x00'', ''0x00''] [''0x00'', ''0x00''] ''cid1'' [])) = Inr ''16'' \<and>
   map_sum id (\<lambda>(res, r). proofTokens (cost r))
     (fst (record_fn example_world example_client (Inr example_response)
            example_record_options [])) = Inr ''10''"
proof (intro conjI)
  show "batchRecord W cfg records vis h \<noteq> (Inr r, h')"
    by (rule batchRecord_never_returns)
  show "fst (batchRecord example_world example_client [example_entry, example_entry] None []) =
     Inl (JsError None ''this.proofRegistry.recordPrice is not a function'')"
    by (simp add: client_eval)
  show "number_of_decimal
     (proofTokens (cost (batchRecord_receipt W cfg records ipfsHash receipt t))) =
     length records * 8"
    by (rule batchRecord_receipt_cost)
  show "map_sum id (\<lambda>r. proofTokens (cost r))
     (fst (batchRecord_anchor example_world example_client [example_entry, example_entry] None
            [''0x00'', ''0x00''] [''0x00'', ''0x00''] ''cid1'' [])) = Inr ''16''"
    by (simp add: client_eval)
  show "map_sum id (\<lambda>(res, r). proofTokens (cost r))
     (fst (record_fn example_world example_client (Inr example_response)
            example_record_options [])) = Inr ''10''"
    by (simp add: client_eval)
qed

text \<open>
  C9. A call of \<open>record\<close> without a visibility and a call with the visibility \<open>PUBLIC\<close> are
  the same computation: from every history and in every world they make the same calls
  with the same arguments and end with the same response and receipt, or the same
  exception. The visibility resolved from an absent option is \<open>PUBLIC\<close>, and whenever the
  call without a visibility returns, the anchor transaction it submitted carries \<open>PUBLIC\<close>.
\<close>

theorem visibility_default_is_public:
  "record_fn W cfg fetched (opts\<lparr>visibility := None\<rparr>) =
   record_fn W cfg fetched (opts\<lparr>visibility := Some PUBLIC\<rparr>) \<and>
   resolve_visibility (visibility (opts\<lparr>visibility := None\<rparr>)) = PUBLIC \<and>
   (record_fn W cfg fetched (opts\<lparr>visibility := None\<rparr>) h = (Inr y, h') \<longrightarrow>
      (\<exists>requestHash responseHash ipfsHash.
         StoreAPIRecord requestHash responseHash ipfsHash PUBLIC \<in> set h'))"
proof -
  have a: "record_fn W cfg fetched (opts\<lparr>visibility := None\<rparr>) =
           record_fn W cfg fetched (opts\<lparr>visibility := Some PUBLIC\<rparr>)"
    by (simp add: record_fn_def record_try_def record_anchor_def requestData_of_def
        resolve_visibility_def)
  have b: "resolve_visibility (visibility (opts\<lparr>visibility := None\<rparr>)) = PUBLIC"
    by (simp add: resolve_visibility_def)
  have c: "\<exists>requestHash responseHash ipfsHash.
         StoreAPIRecord requestHash responseHash ipfsHash PUBLIC \<in> set h'"
    if "record_fn W cfg fetched (opts\<lparr>visibility := None\<rparr>) h = (Inr y, h')"
    using record_submits[OF that] b by simp
  from a b c show ?thesis by blast
qed

theorem visibility_default_is_public_witness:
  "fst (record_fn example_world example_client (Inr example_response)
          (example_record_options\<lparr>visibility := None\<rparr>) []) =
     Inr (example_response,
          \<lparr>recordId = ''0xrecord1'', transactionHash = ''0xsingle'',
            blockNumber = 7, timestamp = 1000, gasUsed = ''21000'',
            explorerUrl = Some ''https://amoy.polygonscan.com/tx/0xsingle'',
            certificateUrl = ''https://ipfs.io/ipfs/cid2'',
            ipfsUrl = ''https://ipfs.io/ipfs/cid1'',
            cost = \<lparr>proofTokens = ''10'', gasInPOL = ''42000''\<rparr>\<rparr>) \<and>
   (\<exists>requestHash responseHash ipfsHash.
      StoreAPIRecord requestHash responseHash ipfsHash PUBLIC \<in>
        set (snd (record_fn example_world example_client (Inr example_response)
                   (example_record_options\<lparr>visibility := None\<rparr>) []))) \<and>
   record_fn example_world example_client (Inr example_response)
          (example_record_options\<lparr>visibility := None\<rparr>) [] =
   record_fn example_world example_client (Inr example_response)
          (example_record_options\<lparr>visibility := Some PUBLIC\<rparr>) []"
proof -
  let ?rs = "\<lparr>recordId = ''0xrecord1'', transactionHash = ''0xsingle'',
            blockNumber = 7, timestamp = 1000, gasUsed = ''21000'',
            explorerUrl = Some ''https://amoy.polygonscan.com/tx/0xsingle'',
            certificateUrl = ''https://ipfs.io/ipfs/cid2'',
            ipfsUrl = ''https://ipfs.io/ipfs/cid1'',
            cost = \<lparr>proofTokens = ''10'', gasInPOL = ''42000''\<rparr>\<rparr>"
  let ?run = "record_fn example_world example_client (Inr example_response)
          (example_record_options\<lparr>visibility := None\<rparr>) []"
  have s: "fst ?run = Inr (example_response, ?rs)"
    by (simp add: client_eval)
  then have s': "?run = (Inr (example_response, ?rs), snd ?run)"
    by (simp add: prod_eq_iff)
  note t = visibility_default_is_public [of example_world example_client
      "Inr example_response" example_record_options "[]" "(example_response, ?rs)" "snd ?run"]
  from t have eq: "record_fn example_world example_client (Inr example_response)
          (example_record_options\<lparr>visibility := None\<rparr>) =
     record_fn example_world example_client (Inr example_response)
          (example_record_options\<lparr>visibility := Some PUBLIC\<rparr>)"
    by (rule conjunct1)
  from t have imp: "?run = (Inr (example_response, ?rs), snd ?run) \<longrightarrow>
      (\<exists>requestHash responseHash ipfsHash.
         StoreAPIRecord requestHash responseHash ipfsHash PUBLIC \<in> set (snd ?run))"
    by (elim conjE)
  from imp s' have ex: "\<exists>requestHash responseHash ipfsHash.
         StoreAPIRecord requestHash responseHash ipfsHash PUBLIC \<in> set (snd ?run)"
    by (rule mp)
  from eq have eq': "?run = record_fn example_world example_client (Inr example_response)
          (example_record_options\<lparr>visibility := Some PUBLIC\<rparr>) []"
    by (rule fun_cong)
  show ?thesis by (intro conjI) (rule s, rule ex, rule eq')
qed


text \<open>
  C3 (the code departs from the claim). \<open>batchRecord\<close> does not read \<open>autoApprove\<close>: it is
  the same computation whatever the option is, and it runs the approval step. With
  \<open>autoApprove: false\<close> and one record it archives the batch, enters the step and ends
  with the \<open>TypeError\<close> of the price read, the first statement of the step; it submits no
  anchor transaction, in any world, although the steps after the approval would submit
  one. \<open>record\<close>, with the same configuration in the same world, makes no call of the step,
  submits its anchor transaction and returns.
\<close>

theorem batchRecord_runs_approval_with_autoApprove_false:
  "autoApprove example_client = Some False \<and>
   batchRecord W (cfg\<lparr>autoApprove := Some False\<rparr>) records vis =
     batchRecord W (cfg\<lparr>autoApprove := Some True\<rparr>) records vis \<and>
   ensureTokenApproval W n h =
     (Inl (JsError None ''this.proofRegistry.recordPrice is not a function''), h) \<and>
   batchRecord example_world example_client [example_entry] None [] =
     (Inl (JsError None ''this.proofRegistry.recordPrice is not a function''),
      [DateNow,
       IpfsUpload
         (JObj [(''records'', JArr [entry_json example_entry]), (''timestamp'', JNum 1000),
                (''count'', JNum 1)]) False,
       ConsoleError (JsError None ''this.proofRegistry.recordPrice is not a function'')]) \<and>
   only_calls (\<lambda>c. \<not> anchor_call c) (batchRecord W cfg records vis) \<and>
   filter anchor_call
     (snd (batchRecord_anchor example_world example_client [example_entry] None
            [''0x00''] [''0x00''] ''cid1'' [])) =
     [StoreBatchRecords [''0x00''] [''0x00''] ''cid1'' PUBLIC] \<and>
   only_calls (\<lambda>c. \<not> approval_call c)
     (record_fn W (cfg\<lparr>autoApprove := Some False\<rparr>) fetched opts) \<and>
   filter approval_call
     (snd (record_fn example_world example_client (Inr example_response)
            example_record_options [])) = [] \<and>
   filter anchor_call
     (snd (record_fn example_world example_client (Inr example_response)
            example_record_options [])) = [StoreAPIRecord ''0x00'' ''0x00'' ''cid1'' PUBLIC] \<and>
   map_sum id (\<lambda>(res, r). transactionHash r)
     (fst (record_fn example_world example_client (Inr example_response)
            example_record_options [])) = Inr ''0xsingle''"
proof (intro conjI)
  show "autoApprove example_client = Some False"
    by (simp add: example_client_def client_config_def)
  show "batchRecord W (cfg\<lparr>autoApprove := Some False\<rparr>) records vis =
     batchRecord W (cfg\<lparr>autoApprove := Some True\<rparr>) records vis"
    by (simp add: batchRecord_ignores_autoApprove)
  show "ensureTokenApproval W n h =
     (Inl (JsError None ''this.proofRegistry.recordPrice is not a function''), h)"
    by (rule ensureTokenApproval_throws)
  show "batchRecord example_world example_client [example_entry] None [] =
     (Inl (JsError None ''this.proofRegistry.recordPrice is not a function''),
      [DateNow,
       IpfsUpload
         (JObj [(''records'', JArr [entry_json example_entry]), (''timestamp'', JNum 1000),
                (''count'', JNum 1)]) False,
       ConsoleError (JsError None ''this.proofRegistry.recordPrice is not a function'')])"
    by (simp add: client_eval)
  show "only_calls (\<lambda>c. \<not> anchor_call c) (batchRecord W cfg records vis)"
    by (rule batchRecord_never_anchors)
  show "filter anchor_call
     (snd (batchRecord_anchor example_world example_client [example_entry] None
            [''0x00''] [''0x00''] ''cid1'' [])) =
     [StoreBatchRecords [''0x00''] [''0x00''] ''cid1'' PUBLIC]"
    by (simp add: client_eval)
  show "only_calls (\<lambda>c. \<not> approval_call c)
     (record_fn W (cfg\<lparr>autoApprove := Some False\<rparr>) fetched opts)"
    by (rule record_skips_approval) simp
  show "filter approval_call
     (snd (record_fn example_world example_client (Inr example_response)
            example_record_options [])) = []"
    by (simp add: client_eval)
  show "filter anchor_call
     (snd (record_fn example_world example_client (Inr example_response)
            example_record_options [])) = [StoreAPIRecord ''0x00'' ''0x00'' ''cid1'' PUBLIC]"
    by (simp add: client_eval)
  show "map_sum id (\<lambda>(res, r). transactionHash r)
     (fst (record_fn example_world example_client (Inr example_response)
            example_record_options [])) = Inr ''0xsingle''"
    by (simp add: client_eval)
qed

section \<open>Properties of the archive adapter\<close>

lemma upload_all_append:
  "upload_all up (xs @ ys) s =
     (case upload_all up xs s of (a, s1) \<Rightarrow>
        (case upload_all up ys s1 of (b, s2) \<Rightarrow> (a @ b, s2)))"
  by (induction xs arbitrary: s) (auto split: prod.splits)

lemma promise_all_Inr: "promise_all (map Inr xs) = Inr xs"
  by (induction xs) auto

lemma promise_all_success: "promise_all outs = Inr xs \<Longrightarrow> outs = map Inr xs"
proof (induction outs arbitrary: xs)
  case Nil
  then show ?case by simp
next
  case (Cons a outs)
  then show ?case by (cases a) (auto split: sum.splits)
qed

lemma loop_success:
  "uploadBatch_loop up records i acc s = (Inr rs, s') \<Longrightarrow>
   \<exists>bs. rs = acc @ bs \<and> upload_all up (drop i records) s = (map Inr bs, s')"
proof (induction up records i acc s rule: uploadBatch_loop.induct)
  case (1 up records i results s)
  show ?case
  proof (cases "i < length records")
    case False
    with "1.prems" show ?thesis by (simp add: uploadBatch_loop.simps)
  next
    case True
    obtain outs s1 where u: "upload_all up (take 5 (drop i records)) s = (outs, s1)"
      by (cases "upload_all up (take 5 (drop i records)) s")
    from "1.prems" True u obtain br where p: "promise_all outs = Inr br"
      and rest: "uploadBatch_loop up records (i + 5) (results @ br) s1 = (Inr rs, s')"
      by (subst (asm) uploadBatch_loop.simps) (auto simp: Let_def split: sum.splits)
    from "1.IH"[OF True refl u[symmetric] p rest] obtain bs where
      bs: "rs = (results @ br) @ bs" "upload_all up (drop (i + 5) records) s1 = (map Inr bs, s')"
      by blast
    have d: "drop i records = take 5 (drop i records) @ drop (i + 5) records"
      by (metis add.commute append_take_drop_id drop_drop)
    have "upload_all up (drop i records) s = (map Inr (br @ bs), s')"
      by (subst d, subst upload_all_append) (simp add: u bs promise_all_success[OF p])
    with bs show ?thesis by auto
  qed
qed

lemma loop_total:
  "upload_all up (drop i records) s = (map Inr bs, s') \<Longrightarrow>
   uploadBatch_loop up records i acc s = (Inr (acc @ bs), s')"
proof (induction up records i acc s arbitrary: bs rule: uploadBatch_loop.induct)
  case (1 up records i results s)
  show ?case
  proof (cases "i < length records")
    case False
    with "1.prems" show ?thesis by (simp add: uploadBatch_loop.simps)
  next
    case True
    obtain outs s1 where u: "upload_all up (take 5 (drop i records)) s = (outs, s1)"
      by (cases "upload_all up (take 5 (drop i records)) s")
    obtain outs2 s2 where u2: "upload_all up (drop (i + 5) records) s1 = (outs2, s2)"
      by (cases "upload_all up (drop (i + 5) records) s1")
    have d: "drop i records = take 5 (drop i records) @ drop (i + 5) records"
      by (metis add.commute append_take_drop_id drop_drop)
    have "upload_all up (drop i records) s = (outs @ outs2, s2)"
      by (subst d, subst upload_all_append) (simp add: u u2)
    with "1.prems" have e: "outs @ outs2 = map Inr bs" and s2: "s2 = s'" by simp_all
    from e have o1: "outs = map Inr (take (length outs) bs)"
      and o2: "outs2 = map Inr (drop (length outs) bs)"
      by (metis append_eq_conv_conj take_map, metis append_eq_conv_conj drop_map)
    from o1 have p: "promise_all outs = Inr (take (length outs) bs)"
      by (metis promise_all_Inr)
    from "1.IH"[OF True refl u[symmetric] p, of "drop (length outs) bs"] u2 o2 s2
    have "uploadBatch_loop up records (i + 5) (results @ take (length outs) bs) s1 =
            (Inr ((results @ take (length outs) bs) @ drop (length outs) bs), s')"
      by simp
    then show ?thesis
      using True u p by (subst uploadBatch_loop.simps) (simp add: Let_def)
  qed
qed

lemma upload_all_length: "upload_all up xs s = (outs, s') \<Longrightarrow> length outs = length xs"
  by (induction xs arbitrary: s outs) (auto split: prod.splits)

lemma upload_all_nth:
  "upload_all up xs s = (outs, s') \<Longrightarrow> i < length xs \<Longrightarrow>
   fst (up (xs ! i) (snd (upload_all up (take i xs) s))) = outs ! i"
proof (induction xs arbitrary: s outs i s')
  case Nil
  then show ?case by simp
next
  case (Cons x xs)
  obtain r s1 where r: "up x s = (r, s1)" by (cases "up x s")
  obtain rs s2 where rs: "upload_all up xs s1 = (rs, s2)" by (cases "upload_all up xs s1")
  from Cons.prems(1) r rs have outs: "outs = r # rs" by simp
  show ?case
  proof (cases i)
    case 0
    with r outs show ?thesis by simp
  next
    case (Suc j)
    with Cons.prems(2) have j: "j < length xs" by simp
    from Cons.IH[OF rs j] Suc r outs show ?thesis
      by (auto split: prod.splits)
  qed
qed

lemma upload_plain_result:
  assumes "upload_plain L env data w = (Inr r, w')"
  shows "up_cid r = cid_of L (content_of L data) \<and> blocks w' (up_cid r) = Some (content_of L data)"
  using assms
  by (auto simp: upload_plain_def upload_def client_add_def Let_def split: if_splits)

lemma upload_all_cids:
  "upload_all (upload_plain L env) records w = (map Inr rs, w') \<Longrightarrow>
   map up_cid rs = map (\<lambda>d. cid_of L (content_of L d)) records"
proof (induction records arbitrary: w rs)
  case Nil
  then show ?case by simp
next
  case (Cons d records)
  obtain r w1 where r: "upload_plain L env d w = (r, w1)" by (cases "upload_plain L env d w")
  obtain outs w2 where o: "upload_all (upload_plain L env) records w1 = (outs, w2)"
    by (cases "upload_all (upload_plain L env) records w1")
  from Cons.prems r o have e: "r # outs = map Inr rs" and "w2 = w'" by simp_all
  then obtain r0 rs0 where rs: "rs = r0 # rs0" "r = Inr r0" "outs = map Inr rs0"
    by (cases rs) auto
  from Cons.IH[of w1 rs0] o rs \<open>w2 = w'\<close>
  have "map up_cid rs0 = map (\<lambda>d. cid_of L (content_of L d)) records" by simp
  moreover from upload_plain_result[of L env d w r0 w1] r rs
  have "up_cid r0 = cid_of L (content_of L d)" by simp
  ultimately show ?case using rs by simp
qed

lemma replace_first_prefix:
  "prefix pat s \<Longrightarrow> replace_first pat rep s = rep @ drop (length pat) s"
  by (cases s) auto

lemma decrypt_encrypt:
  assumes "ENCRYPTION_KEY env = Some key" and "key \<noteq> []"
    and "length iv = 12"
    and "gcm_encrypt L (sha256 L key) iv content = (ct, tag)"
    and "length tag = 16"
    and "gcm_decrypt L (sha256 L key) iv tag ct = Inr content"
    and "base64_decode L (base64_encode L ct) = ct"
    and "base64_decode L (base64_encode L (iv @ tag @ ct)) = iv @ tag @ ct"
  shows "encrypt L env content iv = Inr (''ENCRYPTED_V2:'' @ base64_encode L (iv @ tag @ ct))"
    and "decrypt L env (''ENCRYPTED_V2:'' @ base64_encode L (iv @ tag @ ct)) = Inr content"
proof -
  from assms(1,2) have k: "key_configured env" by (simp add: key_configured_def)
  show "encrypt L env content iv = Inr (''ENCRYPTED_V2:'' @ base64_encode L (iv @ tag @ ct))"
    using k assms by (simp add: encrypt_def or_string_def Let_def)
  let ?sealed = "''ENCRYPTED_V2:'' @ base64_encode L (iv @ tag @ ct)"
  have p: "prefix ''ENCRYPTED_V2:'' ?sealed" by simp
  have np: "\<not> prefix ''ENCRYPTED:'' ?sealed" by simp
  have r: "replace_first ''ENCRYPTED_V2:'' [] ?sealed = base64_encode L (iv @ tag @ ct)"
    by (subst replace_first_prefix[OF p]) simp
  show "decrypt L env ?sealed = Inr content"
    unfolding decrypt_def using k np p
    by (simp only: r if_True if_False not_True_eq_False not_False_eq_True Let_def)
       (simp add: assms or_string_def)
qed

lemmas archive_eval = upload_def upload_plain_def retrieve_def encrypt_def decrypt_def
  upload_then_retrieve_def client_add_def client_cat_def content_of_def key_configured_def
  gatewayUrl_def or_string_def upload_failed_def retrieve_failed_def example_library_def
  example_environment_def keyless_environment_def empty_node_def example_iv_def example_tag_def
  example_json_parse_def example_stringify_def is_digit_def number_of_decimal_def digit_value_def
  decimal.simps digit_def Let_def

text \<open>
  C10. Whenever \<open>uploadBatch\<close> returns, its results are exactly the results of uploading the
  payloads one by one in the order of the input: there is one result per payload, the
  result at position \<open>i\<close> is what the upload of the payload at position \<open>i\<close> returned, and its
  identifier is the identifier of that payload's content. Conversely, when every one of
  these uploads succeeds, \<open>uploadBatch\<close> returns their results. The chunks of five do not
  show in the outcome.
\<close>

theorem uploadBatch_in_order:
  "(uploadBatch L env records w = (Inr results, w') \<longrightarrow>
      upload_all (upload_plain L env) records w = (map Inr results, w') \<and>
      length results = length records \<and>
      map up_cid results = map (\<lambda>d. cid_of L (content_of L d)) records \<and>
      (\<forall>i < length records.
         fst (upload_plain L env (records ! i)
                (snd (upload_all (upload_plain L env) (take i records) w))) = Inr (results ! i))) \<and>
   (upload_all (upload_plain L env) records w = (map Inr results, w') \<longrightarrow>
      uploadBatch L env records w = (Inr results, w'))"
proof -
  have forth: "upload_all (upload_plain L env) records w = (map Inr results, w') \<and>
      length results = length records \<and>
      map up_cid results = map (\<lambda>d. cid_of L (content_of L d)) records \<and>
      (\<forall>i < length records.
         fst (upload_plain L env (records ! i)
                (snd (upload_all (upload_plain L env) (take i records) w))) = Inr (results ! i))"
    if a: "uploadBatch L env records w = (Inr results, w')"
  proof -
    from a loop_success[of "upload_plain L env" records 0 "[]" w results w']
    have u: "upload_all (upload_plain L env) records w = (map Inr results, w')"
      by (simp add: uploadBatch_def)
    from upload_all_length[OF u] have l: "length results = length records" by simp
    have n: "fst (upload_plain L env (records ! i)
                (snd (upload_all (upload_plain L env) (take i records) w))) = Inr (results ! i)"
      if "i < length records" for i
      using upload_all_nth[OF u that] that l by simp
    from u l upload_all_cids[OF u] n show ?thesis by blast
  qed
  have converse: "uploadBatch L env records w = (Inr results, w')"
    if "upload_all (upload_plain L env) records w = (map Inr results, w')"
    using loop_total[of "upload_plain L env" 0 records w results w' "[]"] that
    by (simp add: uploadBatch_def)
  from forth converse show ?thesis by blast
qed

theorem uploadBatch_in_order_witness:
  "uploadBatch example_library example_environment (map JNum [1, 2, 3, 4, 5, 6, 7]) empty_node =
     (Inr (map (\<lambda>c. \<lparr>up_cid = ''bafy-'' @ c, up_url = ''https://ipfs.io/ipfs/bafy-'' @ c,
                      up_size = 1, up_timestamp = 1000\<rparr>)
             [''1'', ''2'', ''3'', ''4'', ''5'', ''6'', ''7'']),
      snd (uploadBatch example_library example_environment (map JNum [1, 2, 3, 4, 5, 6, 7]) empty_node)) \<and>
   map up_cid (map (\<lambda>c. \<lparr>up_cid = ''bafy-'' @ c, up_url = ''https://ipfs.io/ipfs/bafy-'' @ c,
                      up_size = 1, up_timestamp = 1000\<rparr>)
             [''1'', ''2'', ''3'', ''4'', ''5'', ''6'', ''7'']) =
     map (\<lambda>d. cid_of example_library (content_of example_library d)) (map JNum [1, 2, 3, 4, 5, 6, 7])"
proof -
  let ?rs = "map (\<lambda>c. \<lparr>up_cid = ''bafy-'' @ c, up_url = ''https://ipfs.io/ipfs/bafy-'' @ c,
                      up_size = 1, up_timestamp = 1000\<rparr>)
             [''1'', ''2'', ''3'', ''4'', ''5'', ''6'', ''7'']"
  let ?run = "uploadBatch example_library example_environment (map JNum [1, 2, 3, 4, 5, 6, 7]) empty_node"
  have f: "fst ?run = Inr ?rs"
    by (simp add: uploadBatch_def uploadBatch_loop.simps archive_eval)
  then have r: "?run = (Inr ?rs, snd ?run)" by (simp add: prod_eq_iff)
  note t = uploadBatch_in_order [of example_library example_environment
      "map JNum [1, 2, 3, 4, 5, 6, 7]" empty_node ?rs "snd ?run"]
  from t r have "map up_cid ?rs =
     map (\<lambda>d. cid_of example_library (content_of example_library d)) (map JNum [1, 2, 3, 4, 5, 6, 7])"
    by blast
  with r show ?thesis by (intro conjI)
qed

lemma upload_without_key:
  "\<not> key_configured env \<Longrightarrow>
   upload L env data \<lparr>opt_encrypt = Some True\<rparr> iv w = upload L env data \<lparr>opt_encrypt = None\<rparr> iv w"
  by (simp add: upload_def)

text \<open>
  C7 (amended). With a key configured, the node reachable, a nonce of 12 bytes, a cipher
  whose decryption under the same key, nonce and 16-byte tag returns the plaintext, and a
  base64 that decodes what it encoded: an upload with \<open>encrypt: true\<close> followed by the
  retrieval with \<open>decrypt: true\<close> returns what \<open>JSON.parse\<close> makes of the uploaded text, or
  the text itself when \<open>JSON.parse\<close> rejects it. So the payload comes back when it is not a
  text and \<open>JSON.parse\<close> inverts \<open>JSON.stringify\<close> on it, or when it is a text that is not
  itself JSON.
\<close>

theorem encrypted_roundtrip:
  "ENCRYPTION_KEY env = Some key \<and> key \<noteq> [] \<and> online w \<and> length iv = 12 \<and>
   gcm_encrypt L (sha256 L key) iv (content_of L data) = (ct, tag) \<and> length tag = 16 \<and>
   gcm_decrypt L (sha256 L key) iv tag ct = Inr (content_of L data) \<and>
   base64_decode L (base64_encode L ct) = ct \<and>
   base64_decode L (base64_encode L (iv @ tag @ ct)) = iv @ tag @ ct
   \<longrightarrow>
   upload_then_retrieve L env data iv w =
     Inr (case json_parse L (content_of L data) of
            Some v \<Rightarrow> v
          | None \<Rightarrow> JStr (content_of L data)) \<and>
   (json_parse L (content_of L data) = (case data of JStr s \<Rightarrow> None | _ \<Rightarrow> Some data)
    \<longrightarrow> upload_then_retrieve L env data iv w = Inr data)"
proof (intro impI)
  assume a: "ENCRYPTION_KEY env = Some key \<and> key \<noteq> [] \<and> online w \<and> length iv = 12 \<and>
   gcm_encrypt L (sha256 L key) iv (content_of L data) = (ct, tag) \<and> length tag = 16 \<and>
   gcm_decrypt L (sha256 L key) iv tag ct = Inr (content_of L data) \<and>
   base64_decode L (base64_encode L ct) = ct \<and>
   base64_decode L (base64_encode L (iv @ tag @ ct)) = iv @ tag @ ct"
  let ?content = "content_of L data"
  let ?sealed = "''ENCRYPTED_V2:'' @ base64_encode L (iv @ tag @ ct)"
  from a have k: "key_configured env" by (simp add: key_configured_def)
  from a have a1: "ENCRYPTION_KEY env = Some key" and a2: "key \<noteq> []"
    and a3: "length iv = 12"
    and a4: "gcm_encrypt L (sha256 L key) iv ?content = (ct, tag)"
    and a5: "length tag = 16"
    and a6: "gcm_decrypt L (sha256 L key) iv tag ct = Inr ?content"
    and a7: "base64_decode L (base64_encode L ct) = ct"
    and a8: "base64_decode L (base64_encode L (iv @ tag @ ct)) = iv @ tag @ ct"
    by blast+
  have e: "encrypt L env ?content iv = Inr ?sealed"
    by (rule decrypt_encrypt(1)[OF a1 a2 a3 a4 a5 a6 a7 a8])
  have d: "decrypt L env ?sealed = Inr ?content"
    by (rule decrypt_encrypt(2)[OF a1 a2 a3 a4 a5 a6 a7 a8])
  from a have on: "online w" by simp
  have u: "upload L env data \<lparr>opt_encrypt = Some True\<rparr> iv w =
        (Inr \<lparr>up_cid = cid_of L ?sealed, up_url = gatewayUrl env @ cid_of L ?sealed,
              up_size = stored_size L ?sealed, up_timestamp = clock w\<rparr>,
         w\<lparr>blocks := (blocks w)(cid_of L ?sealed \<mapsto> ?sealed)\<rparr>)"
    using k e on by (simp add: upload_def client_add_def Let_def)
  have r: "retrieve L env (cid_of L ?sealed) \<lparr>opt_decrypt = Some True\<rparr>
             (w\<lparr>blocks := (blocks w)(cid_of L ?sealed \<mapsto> ?sealed)\<rparr>) =
           Inr (case json_parse L ?content of Some v \<Rightarrow> v | None \<Rightarrow> JStr ?content)"
    using k d on by (simp add: retrieve_def client_cat_def split: option.splits)
  have "upload_then_retrieve L env data iv w =
          retrieve L env (cid_of L ?sealed) \<lparr>opt_decrypt = Some True\<rparr>
             (w\<lparr>blocks := (blocks w)(cid_of L ?sealed \<mapsto> ?sealed)\<rparr>)"
    unfolding upload_then_retrieve_def u by simp
  also note r
  finally have main: "upload_then_retrieve L env data iv w =
     Inr (case json_parse L ?content of Some v \<Rightarrow> v | None \<Rightarrow> JStr ?content)" .
  have "upload_then_retrieve L env data iv w = Inr data"
    if "json_parse L ?content = (case data of JStr s \<Rightarrow> None | _ \<Rightarrow> Some data)"
    using that main by (cases data) (simp_all add: content_of_def)
  with main show "upload_then_retrieve L env data iv w =
     Inr (case json_parse L ?content of Some v \<Rightarrow> v | None \<Rightarrow> JStr ?content) \<and>
   (json_parse L ?content = (case data of JStr s \<Rightarrow> None | _ \<Rightarrow> Some data)
    \<longrightarrow> upload_then_retrieve L env data iv w = Inr data)"
    by blast
qed

theorem encrypted_roundtrip_witness:
  "upload_then_retrieve example_library example_environment (JNum 42) example_iv empty_node =
     Inr (JNum 42) \<and>
   upload_then_retrieve example_library example_environment (JStr ''hello'') example_iv empty_node =
     Inr (JStr ''hello'') \<and>
   blocks (snd (upload example_library example_environment (JNum 42) \<lparr>opt_encrypt = Some True\<rparr>
                  example_iv empty_node))
     ''bafy-ENCRYPTED_V2:nonce-12-byttag-of-16-bytes.24'' =
     Some ''ENCRYPTED_V2:nonce-12-byttag-of-16-bytes.24''"
proof -
  have h: "ENCRYPTION_KEY example_environment = Some ''secret-key'' \<and> ''secret-key'' \<noteq> [] \<and>
     online empty_node \<and> length example_iv = 12 \<and>
     gcm_encrypt example_library (sha256 example_library ''secret-key'') example_iv
       (content_of example_library (JNum 42)) = (''24'', example_tag) \<and>
     length example_tag = 16 \<and>
     gcm_decrypt example_library (sha256 example_library ''secret-key'') example_iv example_tag ''24'' =
       Inr (content_of example_library (JNum 42)) \<and>
     base64_decode example_library (base64_encode example_library ''24'') = ''24'' \<and>
     base64_decode example_library (base64_encode example_library (example_iv @ example_tag @ ''24'')) =
       example_iv @ example_tag @ ''24''"
    by (simp add: archive_eval)
  have j: "json_parse example_library (content_of example_library (JNum 42)) =
             (case JNum 42 of JStr s \<Rightarrow> None | _ \<Rightarrow> Some (JNum 42))"
    by (simp add: archive_eval)
  note t = encrypted_roundtrip [of example_environment "''secret-key''" empty_node example_iv
      example_library "JNum 42" "''24''" example_tag]
  from t h j have a: "upload_then_retrieve example_library example_environment (JNum 42)
      example_iv empty_node = Inr (JNum 42)"
    by blast
  have h': "ENCRYPTION_KEY example_environment = Some ''secret-key'' \<and> ''secret-key'' \<noteq> [] \<and>
     online empty_node \<and> length example_iv = 12 \<and>
     gcm_encrypt example_library (sha256 example_library ''secret-key'') example_iv
       (content_of example_library (JStr ''hello'')) = (''olleh'', example_tag) \<and>
     length example_tag = 16 \<and>
     gcm_decrypt example_library (sha256 example_library ''secret-key'') example_iv example_tag ''olleh'' =
       Inr (content_of example_library (JStr ''hello'')) \<and>
     base64_decode example_library (base64_encode example_library ''olleh'') = ''olleh'' \<and>
     base64_decode example_library (base64_encode example_library (example_iv @ example_tag @ ''olleh'')) =
       example_iv @ example_tag @ ''olleh''"
    by (simp add: archive_eval)
  have j': "json_parse example_library (content_of example_library (JStr ''hello'')) =
             (case JStr ''hello'' of JStr s \<Rightarrow> None | _ \<Rightarrow> Some (JStr ''hello''))"
    by (simp add: archive_eval)
  note t' = encrypted_roundtrip [of example_environment "''secret-key''" empty_node example_iv
      example_library "JStr ''hello''" "''olleh''" example_tag]
  from t' h' j' have b: "upload_then_retrieve example_library example_environment (JStr ''hello'')
      example_iv empty_node = Inr (JStr ''hello'')"
    by blast
  have c: "blocks (snd (upload example_library example_environment (JNum 42) \<lparr>opt_encrypt = Some True\<rparr>
                  example_iv empty_node))
     ''bafy-ENCRYPTED_V2:nonce-12-byttag-of-16-bytes.24'' =
     Some ''ENCRYPTED_V2:nonce-12-byttag-of-16-bytes.24''"
    by (simp add: archive_eval)
  from a b c show ?thesis by (intro conjI)
qed

text \<open>
  C7 as stated fails: the text \<open>1\<close> is uploaded as it is, and comes back as the number 1.
\<close>

theorem string_payload_is_parsed_counterexample:
  "upload_then_retrieve example_library example_environment (JStr ''1'') example_iv empty_node =
     Inr (JNum 1) \<and>
   upload_then_retrieve example_library example_environment (JStr ''1'') example_iv empty_node \<noteq>
     Inr (JStr ''1'')"
  by (simp add: archive_eval)

text \<open>
  C1 (the code departs from the claim). With no key in the environment, \<open>encrypt\<close> throws
  the configuration error, but \<open>upload\<close> with \<open>encrypt: true\<close> does not call it: it returns
  a result, and the content stored under the returned identifier is the plaintext.
\<close>

theorem upload_without_key_stores_plaintext:
  "\<not> key_configured keyless_environment \<and>
   encrypt example_library keyless_environment ''42'' example_iv =
     Inl (JsError None
       ''Encryption key not configured. Set ENCRYPTION_KEY environment variable (32 bytes hex or 64 char string).'') \<and>
   fst (upload example_library keyless_environment (JNum 42) \<lparr>opt_encrypt = Some True\<rparr>
          example_iv empty_node) =
     Inr \<lparr>up_cid = ''bafy-42'', up_url = ''https://ipfs.io/ipfs/bafy-42'', up_size = 2,
           up_timestamp = 1000\<rparr> \<and>
   blocks (snd (upload example_library keyless_environment (JNum 42) \<lparr>opt_encrypt = Some True\<rparr>
                  example_iv empty_node)) ''bafy-42'' = Some ''42''"
  by (simp add: archive_eval)

end
